theory Spec2Isabelle
  imports Main "HOL-Library.Word"
begin

section \<open>JavaScript strings\<close>

text \<open>
  A JavaScript string is a sequence of 16-bit code units. String literals of the source
  are ASCII and are written \<open>js ''...''\<close>.
\<close>

type_synonym codeunit = "16 word"
type_synonym jsstring = "codeunit list"

definition js :: "string \<Rightarrow> jsstring" where
  "js s = map of_char s"

text \<open>
  White space and line terminators of ECMAScript: the characters that
  \<^verbatim>\<open>String.prototype.trim\<close> strips and that \<^verbatim>\<open>\s\<close> matches.
\<close>

definition isLineTerminator :: "codeunit \<Rightarrow> bool" where
  "isLineTerminator c \<longleftrightarrow> c = 0x0A \<or> c = 0x0D \<or> c = 0x2028 \<or> c = 0x2029"

definition isWhiteSpace :: "codeunit \<Rightarrow> bool" where
  "isWhiteSpace c \<longleftrightarrow>
     c = 0x09 \<or> c = 0x0B \<or> c = 0x0C \<or> c = 0x20 \<or> c = 0xA0 \<or> c = 0x1680 \<or>
     (0x2000 \<le> c \<and> c \<le> 0x200A) \<or> c = 0x202F \<or> c = 0x205F \<or> c = 0x3000 \<or>
     c = 0xFEFF \<or> isLineTerminator c"

definition isDigit :: "codeunit \<Rightarrow> bool" where
  "isDigit c \<longleftrightarrow> 0x30 \<le> c \<and> c \<le> 0x39"

definition isWordChar :: "codeunit \<Rightarrow> bool" where
  "isWordChar c \<longleftrightarrow>
     (0x61 \<le> c \<and> c \<le> 0x7A) \<or> (0x41 \<le> c \<and> c \<le> 0x5A) \<or> isDigit c \<or> c = 0x5F"

definition trim :: "jsstring \<Rightarrow> jsstring" where
  "trim s = rev (dropWhile isWhiteSpace (rev (dropWhile isWhiteSpace s)))"

text \<open>
  \<^verbatim>\<open>toLowerCase\<close> and the case folding of the \<^verbatim>\<open>i\<close> flag, on the ASCII letters. Every
  literal character of the patterns below is ASCII, and without the \<^verbatim>\<open>u\<close> flag a code
  unit from 128 on never folds to one below 128, so a pattern literal matches exactly the
  two ASCII cases of itself.
\<close>

definition canonicalize :: "codeunit \<Rightarrow> codeunit" where
  "canonicalize c = (if 0x61 \<le> c \<and> c \<le> 0x7A then c - 0x20 else c)"

definition lit_match :: "bool \<Rightarrow> char \<Rightarrow> codeunit \<Rightarrow> bool" where
  "lit_match ic p c \<longleftrightarrow>
     (if ic then canonicalize c = canonicalize (of_char p) else c = of_char p)"

section \<open>Regular expressions of the classifier\<close>

text \<open>
  The constructs that the patterns of \<^verbatim>\<open>command-parser.js\<close> use: literal text,
  the classes \<^verbatim>\<open>\s \S \w \d .\<close> and \<^verbatim>\<open>[...]\<close>, the quantifiers \<^verbatim>\<open>+ * +?\<close> on a
  single class, \<^verbatim>\<open>?\<close> on a group, alternation, capture groups and the anchors.
\<close>

datatype atom = WhiteSpace | NonWhiteSpace | WordChar | Digit | Dot | OneOf string

datatype re =
    Lit string
  | One atom
  | Star atom
  | Plus atom
  | PlusLazy atom
  | Seq re re
  | Alt re re
  | Opt re
  | Grp nat re
  | Bol
  | Eol

fun atom_match :: "atom \<Rightarrow> codeunit \<Rightarrow> bool" where
  "atom_match WhiteSpace c = isWhiteSpace c"
| "atom_match NonWhiteSpace c = (\<not> isWhiteSpace c)"
| "atom_match WordChar c = isWordChar c"
| "atom_match Digit c = isDigit c"
| "atom_match Dot c = (\<not> isLineTerminator c)"
| "atom_match (OneOf ps) c = (c \<in> set (js ps))"

text \<open>
  A matcher state is the index reached in the input, the rest of the input from there,
  and the captures so far. A matcher returns the states it can end in, in the order in
  which a backtracking engine tries them; the head of the list is the match.
\<close>

type_synonym captures = "nat \<rightharpoonup> jsstring"
type_synonym mstate = "nat \<times> jsstring \<times> captures"

fun lit :: "bool \<Rightarrow> string \<Rightarrow> mstate \<Rightarrow> mstate list" where
  "lit ic [] st = [st]"
| "lit ic (p # ps) (i, [], caps) = []"
| "lit ic (p # ps) (i, c # cs, caps) =
     (if lit_match ic p c then lit ic ps (Suc i, cs, caps) else [])"

fun step :: "atom \<Rightarrow> mstate \<Rightarrow> mstate list" where
  "step a (i, [], caps) = []"
| "step a (i, c # cs, caps) = (if atom_match a c then [(Suc i, cs, caps)] else [])"

fun star :: "atom \<Rightarrow> mstate \<Rightarrow> mstate list" where
  "star a (i, [], caps) = [(i, [], caps)]"
| "star a (i, c # cs, caps) =
     (if atom_match a c then star a (Suc i, cs, caps) else []) @ [(i, c # cs, caps)]"

fun star_lazy :: "atom \<Rightarrow> mstate \<Rightarrow> mstate list" where
  "star_lazy a (i, [], caps) = [(i, [], caps)]"
| "star_lazy a (i, c # cs, caps) =
     (i, c # cs, caps) # (if atom_match a c then star_lazy a (Suc i, cs, caps) else [])"

fun run :: "bool \<Rightarrow> re \<Rightarrow> mstate \<Rightarrow> mstate list" where
  "run ic (Lit ps) st = lit ic ps st"
| "run ic (One a) st = step a st"
| "run ic (Star a) st = star a st"
| "run ic (Plus a) st = concat (map (star a) (step a st))"
| "run ic (PlusLazy a) st = concat (map (star_lazy a) (step a st))"
| "run ic (Seq r1 r2) st = concat (map (run ic r2) (run ic r1 st))"
| "run ic (Alt r1 r2) st = run ic r1 st @ run ic r2 st"
| "run ic (Opt r) st = filter (\<lambda>st'. fst st' \<noteq> fst st) (run ic r st) @ [st]"
| "run ic (Grp n r) (i, s, caps) =
     map (\<lambda>(j, s', caps'). (j, s', caps'(n \<mapsto> take (j - i) s))) (run ic r (i, s, caps))"
| "run ic Bol (i, s, caps) = (if i = 0 then [(i, s, caps)] else [])"
| "run ic Eol (i, s, caps) = (if s = [] then [(i, s, caps)] else [])"

record regex =
  body :: re
  ignoreCase :: bool

text \<open>
  The result of \<^verbatim>\<open>String.prototype.match\<close> with a regular expression without the
  \<^verbatim>\<open>g\<close> flag: \<^verbatim>\<open>null\<close>, or the match array (group 0 is the matched text) with its
  \<^verbatim>\<open>input\<close> property. The search starts at index 0 and moves right until a start
  index matches.
\<close>

record rmatch =
  groups :: captures
  input :: jsstring

fun match_from :: "regex \<Rightarrow> jsstring \<Rightarrow> nat \<Rightarrow> jsstring \<Rightarrow> rmatch option" where
  "match_from rx inp i s =
     (case run (ignoreCase rx) (body rx) (i, s, Map.empty) of
        (j, s', caps) # _ \<Rightarrow> Some \<lparr>groups = caps(0 \<mapsto> take (j - i) s), input = inp\<rparr>
      | [] \<Rightarrow> (case s of [] \<Rightarrow> None | c # cs \<Rightarrow> match_from rx inp (Suc i) cs))"

definition match :: "jsstring \<Rightarrow> regex \<Rightarrow> rmatch option" where
  "match s rx = match_from rx s 0 s"

section \<open>JavaScript values\<close>

text \<open>
  The Numbers: \<open>Num n\<close> is the Number that is the integer \<open>n\<close> (zero without its sign),
  \<open>Frac m e\<close> the Number \<open>m / 2^e\<close> that is no integer (\<open>m\<close> odd, \<open>e\<close> positive), and the two
  infinities; NaN does not occur. An object is the list of its properties in insertion
  order.
\<close>

datatype jsval =
    Undefined
  | Null
  | Bool bool
  | Num int
  | Frac int nat
  | Infinity
  | NegInfinity
  | Str jsstring
  | Arr "jsval list"
  | Obj "(jsstring \<times> jsval) list"

type_synonym obj = "(jsstring \<times> jsval) list"

text \<open>
  The exceptions: a TypeError of the engine, the error of \<^verbatim>\<open>sendCommand\<close> (``Not connected
  to Brain server''), and the error of \<^verbatim>\<open>send\<close> of the package \<^verbatim>\<open>ws\<close> on a socket that is
  still connecting (``WebSocket is not open: readyState 0 (CONNECTING)''). \<open>Unmodelled\<close> is
  no exception of the program: it marks an argument of \<^verbatim>\<open>parseInt\<close> that is no string of
  digits, which the classifier never passes.
\<close>

datatype error = TypeError | Unmodelled | NotConnected | NotOpen

fun get :: "obj \<Rightarrow> jsstring \<Rightarrow> jsval" where
  "get [] k = Undefined"
| "get ((k', v) # ps) k = (if k' = k then v else get ps k)"

fun put :: "jsstring \<Rightarrow> jsval \<Rightarrow> obj \<Rightarrow> obj" where
  "put k v [] = [(k, v)]"
| "put k v ((k', v') # ps) = (if k' = k then (k, v) # ps else (k', v') # put k v ps)"

text \<open>\<^verbatim>\<open>Object.assign(target, source)\<close> and the spread \<^verbatim>\<open>{...target, ...source}\<close>.\<close>

definition assign :: "obj \<Rightarrow> obj \<Rightarrow> obj" where
  "assign target source = fold (\<lambda>(k, v). put k v) source target"

text \<open>A captured group as a value: \<^verbatim>\<open>undefined\<close> when the group took no part.\<close>

definition val :: "jsstring option \<Rightarrow> jsval" where
  "val g = (case g of None \<Rightarrow> Undefined | Some s \<Rightarrow> Str s)"

text \<open>\<^verbatim>\<open>g.trim()\<close>: a TypeError on \<^verbatim>\<open>undefined\<close>.\<close>

definition trim_of :: "jsstring option \<Rightarrow> error + jsstring" where
  "trim_of g = (case g of None \<Rightarrow> Inl TypeError | Some s \<Rightarrow> Inr (trim s))"

text \<open>\<^verbatim>\<open>g?.trim()\<close>\<close>

definition opt_trim :: "jsstring option \<Rightarrow> jsval" where
  "opt_trim g = (case g of None \<Rightarrow> Undefined | Some s \<Rightarrow> Str (trim s))"

text \<open>\<^verbatim>\<open>g || d\<close> on a string or \<^verbatim>\<open>undefined\<close>: the empty string is falsy.\<close>

definition or_else :: "jsstring option \<Rightarrow> jsstring \<Rightarrow> jsstring" where
  "or_else g d = (case g of None \<Rightarrow> d | Some s \<Rightarrow> if s = [] then d else s)"

text \<open>
  The Number for a mathematical integer \<open>n \<ge> 0\<close>: the nearest value with 53 significant
  bits, the one with the even significand at a tie, and infinity from \<open>2^1024\<close> on.
\<close>

function bits :: "int \<Rightarrow> nat" where
  "bits n = (if n \<le> 0 then 0 else Suc (bits (n div 2)))"
  by pat_completeness auto
termination
  by (relation "measure nat") auto

declare bits.simps [simp del]

definition nearest :: "int \<Rightarrow> int" where
  "nearest n =
     (let e = bits n - 53; q = n div 2 ^ e; r = n mod 2 ^ e in
      if 2 * r < 2 ^ e \<or> (2 * r = 2 ^ e \<and> even q) then q * 2 ^ e else (q + 1) * 2 ^ e)"

definition number :: "int \<Rightarrow> jsval" where
  "number n = (if nearest n < 2 ^ 1024 then Num (nearest n) else Infinity)"

text \<open>
  \<^verbatim>\<open>parseInt(s)\<close> on a non-empty string of decimal digits, which is all that the
  pattern \<^verbatim>\<open>(\d+)\<close> captures: the Number for the decimal value. Any other argument
  is outside the model.
\<close>

definition digit_value :: "codeunit \<Rightarrow> int" where
  "digit_value c = uint c - 0x30"

definition decimal :: "jsstring \<Rightarrow> int" where
  "decimal ds = foldl (\<lambda>n c. 10 * n + digit_value c) 0 ds"

definition parseInt :: "jsstring \<Rightarrow> error + jsval" where
  "parseInt s =
     (if s \<noteq> [] \<and> list_all isDigit s then Inr (number (decimal s)) else Inl Unmodelled)"

text \<open>
  \<^verbatim>\<open>s.split(/\s+/)\<close>: the pieces between the maximal runs of white space; a run at
  either end leaves an empty piece there.
\<close>

function split_ws_from :: "jsstring \<Rightarrow> jsstring \<Rightarrow> jsstring list" where
  "split_ws_from cur [] = [rev cur]"
| "split_ws_from cur (c # cs) =
     (if isWhiteSpace c then rev cur # split_ws_from [] (dropWhile isWhiteSpace cs)
      else split_ws_from (c # cur) cs)"
  by pat_completeness auto
termination
  by (relation "measure (\<lambda>(cur, s). length s)")
     (auto simp: length_dropWhile_le less_Suc_eq_le)

definition split_ws :: "jsstring \<Rightarrow> jsstring list" where
  "split_ws s = split_ws_from [] s"

section \<open>The classifier: \<^verbatim>\<open>CommandParser\<close>\<close>

record rule =
  pattern :: regex
  type :: jsstring
  extract' :: "(rmatch \<Rightarrow> error + obj) option"

definition seqs :: "re list \<Rightarrow> re" where
  "seqs rs = foldr Seq rs (Lit [])"

definition alts :: "string list \<Rightarrow> re" where
  "alts ws = foldr (\<lambda>w r. Alt (Lit w) r) (butlast ws) (Lit (last ws))"

definition re_i :: "re list \<Rightarrow> regex" where
  "re_i rs = \<lparr>body = seqs rs, ignoreCase = True\<rparr>"

definition re_plain :: "re list \<Rightarrow> regex" where
  "re_plain rs = \<lparr>body = seqs rs, ignoreCase = False\<rparr>"

abbreviation ws1 :: re where "ws1 \<equiv> Plus WhiteSpace"
abbreviation ws0 :: re where "ws0 \<equiv> Star WhiteSpace"
abbreviation quote :: re where "quote \<equiv> One (OneOf [CHR 0x22, CHR 0x27])"

text \<open>\<^verbatim>\<open>(match) => ({ <key>: match[1].trim() })\<close>\<close>

definition trimmed1 :: "string \<Rightarrow> rmatch \<Rightarrow> error + obj" where
  "trimmed1 key m =
     (case trim_of (groups m 1) of Inl e \<Rightarrow> Inl e | Inr p \<Rightarrow> Inr [(js key, Str p)])"

text \<open>\<^verbatim>\<open>(match) => ({ path: match[1].trim() || '.' })\<close>\<close>

definition path_field :: "rmatch \<Rightarrow> error + obj" where
  "path_field m =
     (case trim_of (groups m 1) of
        Inl e \<Rightarrow> Inl e
      | Inr p \<Rightarrow> Inr [(js ''path'', Str (or_else (Some p) (js ''.'')))])"

text \<open>\<^verbatim>\<open>(match) => ({ pattern: match[1], directory: match[2] || '.' })\<close>\<close>

definition search_fields :: "rmatch \<Rightarrow> error + obj" where
  "search_fields m =
     Inr [(js ''pattern'', val (groups m 1)),
          (js ''directory'', Str (or_else (groups m 2) (js ''.'')))]"

text \<open>\<^verbatim>\<open>(match) => ({ limit: match[1] ? parseInt(match[1]) : 10 })\<close>\<close>

definition limit_field :: "rmatch \<Rightarrow> error + obj" where
  "limit_field m =
     (case groups m 1 of
        None \<Rightarrow> Inr [(js ''limit'', Num 10)]
      | Some g \<Rightarrow>
          if g = [] then Inr [(js ''limit'', Num 10)]
          else (case parseInt g of Inl e \<Rightarrow> Inl e | Inr n \<Rightarrow> Inr [(js ''limit'', n)]))"

text \<open>\<^verbatim>\<open>(match) => ({ files: match[1].trim().split(/\s+/) })\<close>\<close>

definition files_field :: "rmatch \<Rightarrow> error + obj" where
  "files_field m =
     (case trim_of (groups m 1) of
        Inl e \<Rightarrow> Inl e
      | Inr p \<Rightarrow> Inr [(js ''files'', Arr (map Str (split_ws p)))])"

text \<open>\<^verbatim>\<open>(match) => ({ symbol: match[1], filePath: match[2]?.trim() })\<close>\<close>

definition symbol_fields :: "rmatch \<Rightarrow> error + obj" where
  "symbol_fields m =
     Inr [(js ''symbol'', val (groups m 1)), (js ''filePath'', opt_trim (groups m 2))]"

text \<open>\<^verbatim>\<open>(match) => ({ serverId: match[1], config: match[2].trim() })\<close>\<close>

definition server_fields :: "rmatch \<Rightarrow> error + obj" where
  "server_fields m =
     (case trim_of (groups m 2) of
        Inl e \<Rightarrow> Inl e
      | Inr c \<Rightarrow> Inr [(js ''serverId'', val (groups m 1)), (js ''config'', Str c)])"

definition patterns :: "rule list" where
  "patterns = [
    \<comment> \<open>File operations\<close>
    \<lparr>pattern = re_i [Bol, alts [''read'', ''show'', ''cat'', ''view''], ws1,
                    Opt (seqs [Lit ''file'', ws1]), Grp 1 (Plus Dot), Eol],
     type = js ''read_file'', extract' = Some (trimmed1 ''filePath'')\<rparr>,
    \<lparr>pattern = re_i [Bol, alts [''write'', ''save''], ws1, Opt (seqs [Lit ''to'', ws1]),
                    Opt (seqs [Lit ''file'', ws1]), Grp 1 (Plus Dot), Eol],
     type = js ''write_file'', extract' = Some (trimmed1 ''filePath'')\<rparr>,
    \<lparr>pattern = re_i [Bol, alts [''edit'', ''modify''], ws1,
                    Opt (seqs [Lit ''file'', ws1]), Grp 1 (Plus Dot), Eol],
     type = js ''edit_file'', extract' = Some (trimmed1 ''filePath'')\<rparr>,
    \<lparr>pattern = re_i [Bol, alts [''list'', ''ls'', ''dir''], ws0, Grp 1 (Star Dot), Eol],
     type = js ''list_directory'',
     extract' = Some path_field\<rparr>,
    \<lparr>pattern = re_i [Bol, alts [''search'', ''find'', ''grep''], ws1,
                    Opt (seqs [Lit ''for'', ws1]), quote, Grp 1 (PlusLazy Dot), quote,
                    Opt (seqs [ws1, Lit ''in'', ws1, Grp 2 (Plus Dot)]), Eol],
     type = js ''search_files'', extract' = Some search_fields\<rparr>,
    \<lparr>pattern = re_i [Bol, alts [''search'', ''find'', ''grep''], ws1,
                    Opt (seqs [Lit ''for'', ws1]), Grp 1 (Plus NonWhiteSpace),
                    Opt (seqs [ws1, Lit ''in'', ws1, Grp 2 (Plus Dot)]), Eol],
     type = js ''search_files'', extract' = Some search_fields\<rparr>,
    \<lparr>pattern = re_i [Bol, alts [''create'', ''mkdir''], ws1,
                    Opt (seqs [Lit ''directory'', ws1]), Grp 1 (Plus Dot), Eol],
     type = js ''create_directory'', extract' = Some (trimmed1 ''path'')\<rparr>,

    \<comment> \<open>Git operations\<close>
    \<lparr>pattern = re_i [Bol, Lit ''git'', ws1, Lit ''status'', Eol],
     type = js ''git_status'', extract' = None\<rparr>,
    \<lparr>pattern = re_i [Bol, Opt (seqs [Lit ''git'', ws1]), Opt (seqs [Lit ''show'', ws1]),
                    alts [''status'', ''st''], Eol],
     type = js ''git_status'', extract' = None\<rparr>,
    \<lparr>pattern = re_i [Bol, Lit ''git'', ws1, Lit ''diff'',
                    Opt (seqs [ws1, Grp 1 (Plus Dot)]), Eol],
     type = js ''git_diff'',
     extract' = Some (\<lambda>m. Inr [(js ''filePath'', opt_trim (groups m 1))])\<rparr>,
    \<lparr>pattern = re_i [Bol, Opt (seqs [Lit ''show'', ws1]), Lit ''diff'',
                    Opt (seqs [ws1, Opt (seqs [Lit ''for'', ws1]), Grp 1 (Plus Dot)]), Eol],
     type = js ''git_diff'',
     extract' = Some (\<lambda>m. Inr [(js ''filePath'', opt_trim (groups m 1))])\<rparr>,
    \<lparr>pattern = re_i [Bol, Lit ''git'', ws1, Lit ''log'',
                    Opt (seqs [ws1, Grp 1 (Plus Digit)]), Eol],
     type = js ''git_log'', extract' = Some limit_field\<rparr>,
    \<lparr>pattern = re_i [Bol, Opt (seqs [Lit ''show'', ws1]), Opt (seqs [Lit ''git'', ws1]),
                    alts [''history'', ''log''], Opt (seqs [ws1, Grp 1 (Plus Digit)]), Eol],
     type = js ''git_log'', extract' = Some limit_field\<rparr>,
    \<lparr>pattern = re_i [Bol, Lit ''git'', ws1, Lit ''add'', ws1, Grp 1 (Plus Dot), Eol],
     type = js ''git_add'', extract' = Some files_field\<rparr>,
    \<lparr>pattern = re_i [Bol, alts [''stage'', ''add''], ws1, Grp 1 (Plus Dot), Eol],
     type = js ''git_add'', extract' = Some files_field\<rparr>,
    \<lparr>pattern = re_i [Bol, Lit ''git'', ws1, Lit ''commit'', ws1,
                    Opt (seqs [Lit ''-m'', ws1]), quote, Grp 1 (Plus Dot), quote, Eol],
     type = js ''git_commit'',
     extract' = Some (\<lambda>m. Inr [(js ''message'', val (groups m 1))])\<rparr>,
    \<lparr>pattern = re_i [Bol, Lit ''commit'', ws1, quote, Grp 1 (Plus Dot), quote, Eol],
     type = js ''git_commit'',
     extract' = Some (\<lambda>m. Inr [(js ''message'', val (groups m 1))])\<rparr>,
    \<lparr>pattern = re_i [Bol, Opt (seqs [Lit ''git'', ws1]), alts [''branch'', ''branches''], Eol],
     type = js ''git_branch_info'', extract' = None\<rparr>,

    \<comment> \<open>Codebase analysis\<close>
    \<lparr>pattern = re_i [Bol, alts [''analyze'', ''analysis''], ws1,
                    alts [''project'', ''codebase''], Eol],
     type = js ''analyze_project'', extract' = None\<rparr>,
    \<lparr>pattern = re_i [Bol, alts [''explain'', ''describe''], ws1,
                    Opt (seqs [Lit ''this'', ws1]),
                    alts [''project'', ''codebase'', ''architecture''], Eol],
     type = js ''explain_codebase'', extract' = None\<rparr>,
    \<lparr>pattern = re_i [Bol, Opt (seqs [Lit ''show'', ws1]), Opt (seqs [Lit ''project'', ws1]),
                    Lit ''structure'', Eol],
     type = js ''get_project_structure'', extract' = None\<rparr>,
    \<lparr>pattern = re_i [Bol, alts [''find'', ''search''], ws1,
                    Opt (seqs [Lit ''definition'', ws1, Opt (seqs [Lit ''of'', ws1])]),
                    Grp 1 (Plus WordChar),
                    Opt (seqs [ws1, Lit ''in'', ws1, Grp 2 (Plus Dot)]), Eol],
     type = js ''find_definition'', extract' = Some symbol_fields\<rparr>,
    \<lparr>pattern = re_i [Bol, alts [''find'', ''search''], ws1,
                    Opt (seqs [Lit ''references'', ws1, Opt (seqs [Lit ''to'', ws1])]),
                    Grp 1 (Plus WordChar),
                    Opt (seqs [ws1, Lit ''in'', ws1, Grp 2 (Plus Dot)]), Eol],
     type = js ''find_references'', extract' = Some symbol_fields\<rparr>,
    \<lparr>pattern = re_i [Bol, Alt (seqs [Lit ''where'', ws1, Lit ''is''])
                             (seqs [Lit ''what'', ws1, Lit ''is'']), ws1,
                    Grp 1 (Plus WordChar),
                    Opt (seqs [ws1, alts [''defined'', ''used'']]), Eol],
     type = js ''find_definition'',
     extract' = Some (\<lambda>m. Inr [(js ''symbol'', val (groups m 1))])\<rparr>,

    \<comment> \<open>Server connection patterns\<close>
    \<lparr>pattern = re_i [Bol, Lit ''connect'', ws1, Opt (seqs [Lit ''to'', ws1]), Lit ''server'',
                    ws1, Grp 1 (Plus WordChar), ws1, Opt (seqs [Lit ''with'', ws1]),
                    Opt (seqs [Lit ''config'', ws1]), Grp 2 (Plus Dot), Eol],
     type = js ''connect_server'', extract' = Some server_fields\<rparr>,
    \<lparr>pattern = re_i [Bol, Lit ''connect'', ws1, Grp 1 (Plus WordChar), ws1,
                    Grp 2 (Plus Dot), Eol],
     type = js ''connect_server'', extract' = Some server_fields\<rparr>,

    \<comment> \<open>Server listing patterns\<close>
    \<lparr>pattern = re_i [Bol, alts [''list'', ''show''], ws1, Lit ''server'', Opt (Lit ''s''), Eol],
     type = js ''list_servers'', extract' = None\<rparr>,
    \<lparr>pattern = re_i [Bol, Lit ''server'', Opt (Lit ''s''), Eol],
     type = js ''list_servers'', extract' = None\<rparr>,

    \<comment> \<open>Tools listing patterns\<close>
    \<lparr>pattern = re_i [Bol, alts [''list'', ''show''], ws1, Lit ''tool'', Opt (Lit ''s''), ws1,
                    Opt (seqs [Lit ''from'', ws1]), Opt (seqs [Lit ''server'', ws1]),
                    Grp 1 (Plus WordChar), Eol],
     type = js ''list_tools'',
     extract' = Some (\<lambda>m. Inr [(js ''serverId'', val (groups m 1))])\<rparr>,
    \<lparr>pattern = re_i [Bol, Lit ''tool'', Opt (Lit ''s''), ws1, Opt (seqs [Lit ''from'', ws1]),
                    Grp 1 (Plus WordChar), Eol],
     type = js ''list_tools'',
     extract' = Some (\<lambda>m. Inr [(js ''serverId'', val (groups m 1))])\<rparr>,

    \<comment> \<open>Query patterns (explicit)\<close>
    \<lparr>pattern = re_i [Bol, Lit ''query:'', ws0, Grp 1 (Plus Dot), Eol],
     type = js ''query'', extract' = Some (trimmed1 ''query'')\<rparr>,
    \<lparr>pattern = re_i [Bol, Lit ''ask:'', ws0, Grp 1 (Plus Dot), Eol],
     type = js ''query'', extract' = Some (trimmed1 ''query'')\<rparr>,

    \<comment> \<open>Question patterns (natural language queries)\<close>
    \<lparr>pattern = re_i [Bol, alts [''what'', ''how'', ''why'', ''when'', ''where'', ''who'', ''can'',
                               ''could'', ''would'', ''should'', ''is'', ''are'', ''do'', ''does'',
                               ''did'', ''will'', ''explain'', ''tell'', ''describe''], ws1],
     type = js ''query'', extract' = Some (\<lambda>m. Inr [(js ''query'', Str (input m))])\<rparr>,
    \<lparr>pattern = re_plain [Lit ''?'', Eol],
     type = js ''query'', extract' = Some (\<lambda>m. Inr [(js ''query'', Str (input m))])\<rparr>
  ]"

text \<open>
  \<^verbatim>\<open>parse(input)\<close>: the loop over the rules stops at the first whose pattern matches
  the trimmed input.
\<close>

fun parse_rules :: "rule list \<Rightarrow> jsstring \<Rightarrow> error + obj" where
  "parse_rules [] trimmedInput =
     Inr [(js ''type'', Str (js ''unknown'')), (js ''input'', Str trimmedInput)]"
| "parse_rules (r # rs) trimmedInput =
     (case match trimmedInput (pattern r) of
        None \<Rightarrow> parse_rules rs trimmedInput
      | Some m \<Rightarrow>
          (case extract' r of
             None \<Rightarrow> Inr [(js ''type'', Str (type r))]
           | Some f \<Rightarrow>
               (case f m of
                  Inl e \<Rightarrow> Inl e
                | Inr extracted \<Rightarrow> Inr (assign [(js ''type'', Str (type r))] extracted))))"

definition parse :: "jsstring \<Rightarrow> error + obj" where
  "parse inp = parse_rules patterns (trim inp)"

text \<open>\<^verbatim>\<open>getCommandCategory(type)\<close>\<close>

definition categories :: "(jsstring \<times> jsstring list) list" where
  "categories = [
     (js ''file_operations'',
        map js [''read_file'', ''write_file'', ''edit_file'', ''list_directory'',
                ''search_files'', ''create_directory'']),
     (js ''git_operations'',
        map js [''git_status'', ''git_diff'', ''git_log'', ''git_add'', ''git_commit'',
                ''git_branch_info'']),
     (js ''codebase_analysis'',
        map js [''analyze_project'', ''explain_codebase'', ''get_project_structure'',
                ''find_definition'', ''find_references'']),
     (js ''server_management'',
        map js [''connect_server'', ''list_servers'', ''list_tools'']),
     (js ''queries'', map js [''query''])]"

fun category_in :: "(jsstring \<times> jsstring list) list \<Rightarrow> jsval \<Rightarrow> jsstring" where
  "category_in [] ty = js ''unknown''"
| "category_in ((category, types) # rest) ty =
     (if ty \<in> set (map Str types) then category else category_in rest ty)"

definition getCommandCategory :: "jsval \<Rightarrow> jsstring" where
  "getCommandCategory ty = category_in categories ty"

text \<open>
  \<^verbatim>\<open>toLowerCase\<close>. The ASCII letters are mapped exactly, and so are the two other
  code units whose lower case contains an ASCII letter (U+0130, U+212A). The lower case
  of any other code unit lies outside ASCII; the source compares lowered text with
  ASCII words only, so these code units are left as they are.
\<close>

definition lower_unit :: "codeunit \<Rightarrow> jsstring" where
  "lower_unit c =
     (if 0x41 \<le> c \<and> c \<le> 0x5A then [c + 0x20]
      else if c = 0x0130 then [0x69, 0x0307]
      else if c = 0x212A then [0x6B]
      else [c])"

definition toLowerCase :: "jsstring \<Rightarrow> jsstring" where
  "toLowerCase s = concat (map lower_unit s)"

fun startsWith :: "jsstring \<Rightarrow> jsstring \<Rightarrow> bool" where
  "startsWith s [] = True"
| "startsWith [] (k # ks) = False"
| "startsWith (c # cs) (k # ks) = (c = k \<and> startsWith cs ks)"

fun includes_str :: "jsstring \<Rightarrow> jsstring \<Rightarrow> bool" where
  "includes_str [] k = (k = [])"
| "includes_str (c # cs) k = (startsWith (c # cs) k \<or> includes_str cs k)"

text \<open>\<^verbatim>\<open>isDevelopmentCommand(input)\<close>\<close>

definition devKeywords :: "jsstring list" where
  "devKeywords = map js
     [''read'', ''write'', ''edit'', ''file'', ''list'', ''search'', ''find'',
      ''git'', ''status'', ''diff'', ''commit'', ''add'', ''stage'',
      ''analyze'', ''explain'', ''structure'', ''definition'', ''references'']"

definition isDevelopmentCommand :: "jsstring \<Rightarrow> bool" where
  "isDevelopmentCommand inp = list_ex (\<lambda>keyword. includes_str (toLowerCase inp) keyword) devKeywords"

section \<open>Values at run time and in JSON text\<close>

text \<open>Truthiness.\<close>

fun truthy :: "jsval \<Rightarrow> bool" where
  "truthy Undefined = False"
| "truthy Null = False"
| "truthy (Bool b) = b"
| "truthy (Num n) = (n \<noteq> 0)"
| "truthy (Str s) = (s \<noteq> [])"
| "truthy v = True"

text \<open>
  The property read \<^verbatim>\<open>v.k\<close> for the property names that the source reads (none of
  them an index or a built-in method): a TypeError on \<^verbatim>\<open>undefined\<close> and \<^verbatim>\<open>null\<close>.
\<close>

fun read_prop :: "jsval \<Rightarrow> jsstring \<Rightarrow> error + jsval" where
  "read_prop Undefined k = Inl TypeError"
| "read_prop Null k = Inl TypeError"
| "read_prop (Obj ps) k = Inr (get ps k)"
| "read_prop (Arr xs) k = Inr (if k = js ''length'' then Num (int (length xs)) else Undefined)"
| "read_prop (Str s) k = Inr (if k = js ''length'' then Num (int (length s)) else Undefined)"
| "read_prop v k = Inr Undefined"

text \<open>
  What \<^verbatim>\<open>JSON.parse(JSON.stringify(v))\<close> is: \<open>v\<close> without the properties whose value
  is \<^verbatim>\<open>undefined\<close>, with \<^verbatim>\<open>null\<close> for \<^verbatim>\<open>undefined\<close> in an array and for an infinity
  anywhere. JSON text is identified with the value that it denotes.
\<close>

fun json_clean :: "jsval \<Rightarrow> jsval" where
  "json_clean (Arr xs) = Arr (map (\<lambda>v. if v = Undefined then Null else json_clean v) xs)"
| "json_clean (Obj ps) =
     Obj (map (\<lambda>(k, v). (k, json_clean v)) (filter (\<lambda>(k, v). v \<noteq> Undefined) ps))"
| "json_clean Infinity = Null"
| "json_clean NegInfinity = Null"
| "json_clean v = v"

text \<open>The decimal numeral of a natural number, as in the index keys of an array.\<close>

function dec_of_nat :: "nat \<Rightarrow> jsstring" where
  "dec_of_nat n =
     (if n < 10 then [of_nat (48 + n)] else dec_of_nat (n div 10) @ [of_nat (48 + n mod 10)])"
  by pat_completeness auto
termination
  by (relation "measure id") auto

text \<open>
  \<^verbatim>\<open>`${v}`\<close>, the string of a value. The digits of a Number that is no integer, or
  that is printed with an exponent, are those that the engine's \<^verbatim>\<open>Number::toString\<close>
  gives, the parameter \<open>digits\<close>. An array is joined with commas, \<^verbatim>\<open>null\<close> and
  \<^verbatim>\<open>undefined\<close> as the empty string. An object read from JSON text prints as
  \<^verbatim>\<open>[object Object]\<close>, unless it has a property \<^verbatim>\<open>toString\<close> of its own, which is not a
  function: then neither \<^verbatim>\<open>toString\<close> nor \<^verbatim>\<open>valueOf\<close> yields a primitive value.
\<close>

fun join :: "(error + jsstring) list \<Rightarrow> error + jsstring" where
  "join [] = Inr []"
| "join [x] = x"
| "join (x # y # ys) =
     (case x of
        Inl e \<Rightarrow> Inl e
      | Inr s \<Rightarrow> (case join (y # ys) of Inl e \<Rightarrow> Inl e | Inr t \<Rightarrow> Inr (s @ js '','' @ t)))"

fun to_string :: "(jsval \<Rightarrow> jsstring) \<Rightarrow> jsval \<Rightarrow> error + jsstring" where
  "to_string digits (Str s) = Inr s"
| "to_string digits Undefined = Inr (js ''undefined'')"
| "to_string digits Null = Inr (js ''null'')"
| "to_string digits (Bool b) = Inr (if b then js ''true'' else js ''false'')"
| "to_string digits (Num n) =
     (if \<bar>n\<bar> < 10 ^ 21
      then Inr ((if n < 0 then js ''-'' else []) @ dec_of_nat (nat \<bar>n\<bar>))
      else Inr (digits (Num n)))"
| "to_string digits (Frac m e) = Inr (digits (Frac m e))"
| "to_string digits Infinity = Inr (js ''Infinity'')"
| "to_string digits NegInfinity = Inr (js ''-Infinity'')"
| "to_string digits (Arr xs) =
     join (map (\<lambda>v. if v = Undefined \<or> v = Null then Inr [] else to_string digits v) xs)"
| "to_string digits (Obj ps) =
     (if js ''toString'' \<in> fst ` set ps then Inl TypeError else Inr (js ''[object Object]''))"

text \<open>
  \<^verbatim>\<open>v > 0\<close>: the value as a Number, NaN for \<^verbatim>\<open>undefined\<close>, compared with zero. The
  Number of a string is the engine's, the parameter \<open>numeric\<close>, which gives
  \<^verbatim>\<open>undefined\<close> for NaN; an array or an object is first made a string.
\<close>

fun positive :: "jsval \<Rightarrow> bool" where
  "positive (Num n) = (0 < n)"
| "positive (Frac m e) = (0 < m)"
| "positive Infinity = True"
| "positive (Bool b) = b"
| "positive v = False"

fun greater_than_zero ::
  "(jsval \<Rightarrow> jsstring) \<Rightarrow> (jsstring \<Rightarrow> jsval) \<Rightarrow> jsval \<Rightarrow> error + bool" where
  "greater_than_zero digits numeric (Str s) = Inr (positive (numeric s))"
| "greater_than_zero digits numeric (Arr xs) =
     (case to_string digits (Arr xs) of
        Inl e \<Rightarrow> Inl e
      | Inr s \<Rightarrow> Inr (positive (numeric s)))"
| "greater_than_zero digits numeric (Obj ps) =
     (case to_string digits (Obj ps) of
        Inl e \<Rightarrow> Inl e
      | Inr s \<Rightarrow> Inr (positive (numeric s)))"
| "greater_than_zero digits numeric v = Inr (positive v)"

section \<open>The transport client: \<^verbatim>\<open>BrainClient\<close>\<close>

text \<open>
  A socket of the package \<^verbatim>\<open>ws\<close>: its ready state and the frames that \<^verbatim>\<open>send\<close> handed
  to the sender, oldest first. On a socket that is still connecting \<^verbatim>\<open>send\<close> throws; on
  one that is closing or closed it returns and sends nothing (no callback is given). On
  any socket but a closed one \<^verbatim>\<open>close\<close> starts the closing.
\<close>

datatype readyState = CONNECTING | OPEN | CLOSING | CLOSED

record socket =
  readyState :: readyState
  outbox :: "jsval list"

definition send :: "socket \<Rightarrow> jsval \<Rightarrow> error + socket" where
  "send sock data =
     (case readyState sock of
        CONNECTING \<Rightarrow> Inl NotOpen
      | OPEN \<Rightarrow> Inr (sock\<lparr>outbox := outbox sock @ [data]\<rparr>)
      | _ \<Rightarrow> Inr sock)"

definition close :: "socket \<Rightarrow> socket" where
  "close sock = (if readyState sock = CLOSED then sock else sock\<lparr>readyState := CLOSING\<rparr>)"

text \<open>
  The client. \<open>sockets\<close> holds every socket that \<^verbatim>\<open>connect\<close> created, oldest first: the
  earlier ones stay alive, and their listeners still write the flag of the client. The
  field \<^verbatim>\<open>this.ws\<close> is assigned by the constructor (\<^verbatim>\<open>null\<close>) and by \<^verbatim>\<open>connect\<close> only,
  so it is the socket created last.
\<close>

record client =
  sockets :: "socket list"
  connected :: bool
  pendingRequests :: "(int \<times> jsval) list"
  requestId :: int

definition ws :: "client \<Rightarrow> socket option" where
  "ws c = (if sockets c = [] then None else Some (last (sockets c)))"

definition replace_ws :: "socket \<Rightarrow> client \<Rightarrow> client" where
  "replace_ws sock c = c\<lparr>sockets := butlast (sockets c) @ [sock]\<rparr>"

text \<open>\<^verbatim>\<open>sendCommand(command, params)\<close>\<close>

definition sendCommand :: "client \<Rightarrow> jsval \<Rightarrow> obj \<Rightarrow> (error + unit) \<times> client" where
  "sendCommand c command params =
     (if \<not> connected c then (Inl NotConnected, c)
      else
        let message = assign [(js ''command'', command)] params in
        (case ws c of
           None \<Rightarrow> (Inl TypeError, c)
         | Some sock \<Rightarrow>
             (case send sock (json_clean (Obj message)) of
                Inl e \<Rightarrow> (Inl e, c)
              | Inr sock' \<Rightarrow> (Inr (), replace_ws sock' c))))"

text \<open>\<^verbatim>\<open>disconnect()\<close>\<close>

definition disconnect :: "client \<Rightarrow> client" where
  "disconnect c =
     (case ws c of
        None \<Rightarrow> c
      | Some sock \<Rightarrow> (replace_ws (close sock) c)\<lparr>connected := False\<rparr>)"

text \<open>
  The life of a client. The constructor leaves \<open>ws\<close> null, \<open>connected\<close> false, the map
  \<open>pendingRequests\<close> empty and \<open>requestId\<close> zero. \<^verbatim>\<open>connect\<close> stores a new socket, which is
  connecting, and registers the listeners of its \<^verbatim>\<open>open\<close>, \<^verbatim>\<open>error\<close> and \<^verbatim>\<open>close\<close>
  events, which set the flag; it does not touch the flag itself.
\<close>

definition constructor :: client where
  "constructor = \<lparr>sockets = [], connected = False, pendingRequests = [], requestId = 0\<rparr>"

definition connect :: "client \<Rightarrow> client" where
  "connect c = c\<lparr>sockets := sockets c @ [\<lparr>readyState = CONNECTING, outbox = []\<rparr>]\<rparr>"

definition on_open :: "client \<Rightarrow> client" where
  "on_open c = c\<lparr>connected := True\<rparr>"

definition on_error :: "client \<Rightarrow> client" where
  "on_error c = c\<lparr>connected := False\<rparr>"

definition on_close :: "client \<Rightarrow> client" where
  "on_close c = c\<lparr>connected := False\<rparr>"

text \<open>
  What happens to a client: a call of one of its methods, or an event of the socket
  number \<open>i\<close>, which sets the ready state of that socket and then runs its listener. A
  socket opens once, while it is connecting; it reports an error and it closes while it is
  not closed, and is closing after an error. An event that the socket cannot raise leaves
  the client as it is.
\<close>

datatype call =
    Connect
  | SocketOpen nat
  | SocketError nat
  | SocketClose nat
  | Disconnect
  | SendCommand jsval obj

definition ready :: "nat \<Rightarrow> readyState \<Rightarrow> client \<Rightarrow> client" where
  "ready i s c = c\<lparr>sockets := (sockets c)[i := (sockets c ! i)\<lparr>readyState := s\<rparr>]\<rparr>"

fun perform :: "client \<Rightarrow> call \<Rightarrow> client" where
  "perform c Connect = connect c"
| "perform c (SocketOpen i) =
     (if i < length (sockets c) \<and> readyState (sockets c ! i) = CONNECTING
      then on_open (ready i OPEN c) else c)"
| "perform c (SocketError i) =
     (if i < length (sockets c) \<and> readyState (sockets c ! i) \<noteq> CLOSED
      then on_error (ready i CLOSING c) else c)"
| "perform c (SocketClose i) =
     (if i < length (sockets c) \<and> readyState (sockets c ! i) \<noteq> CLOSED
      then on_close (ready i CLOSED c) else c)"
| "perform c Disconnect = disconnect c"
| "perform c (SendCommand command params) = snd (sendCommand c command params)"

definition client_after :: "call list \<Rightarrow> client" where
  "client_after calls = foldl perform constructor calls"

text \<open>
  What a run leaves behind, in order: a handler of the dispatch table called, a line on
  the console (named by the function that prints it), an event emitted, a call from the
  REPL into the session store or the client.
\<close>

datatype event =
    Invoke string obj
  | Console string "jsval list"
  | Emit jsstring jsval
  | Call string "jsval list"

text \<open>
  The handlers read properties of the frame and then print with chalk, boxen and
  cli-table3. The reads are modelled; what the printing does with a value is the
  parameter \<open>render\<close>, called with the name of the handler.
\<close>

type_synonym renderer = "string \<Rightarrow> obj \<Rightarrow> error + unit"

definition nullish :: "jsval \<Rightarrow> bool" where
  "nullish v \<longleftrightarrow> v = Undefined \<or> v = Null"

definition handleServerConnected :: "renderer \<Rightarrow> obj \<Rightarrow> error + unit" where
  "handleServerConnected render data =
     (case read_prop (get data (js ''server'')) (js ''id'') of
        Inl e \<Rightarrow> Inl e
      | Inr _ \<Rightarrow> render ''handleServerConnected'' data)"

definition handleServerDisconnected :: "renderer \<Rightarrow> obj \<Rightarrow> error + unit" where
  "handleServerDisconnected render data = render ''handleServerDisconnected'' data"

text \<open>\<^verbatim>\<open>tools.forEach(tool => ... tool.name ...)\<close>: only an array has \<^verbatim>\<open>forEach\<close>.\<close>

definition handleToolsList :: "renderer \<Rightarrow> obj \<Rightarrow> error + unit" where
  "handleToolsList render data =
     (let tools = get data (js ''tools'') in
      case read_prop tools (js ''length'') of
        Inl e \<Rightarrow> Inl e
      | Inr n \<Rightarrow>
          if n = Num 0 then render ''handleToolsList'' data
          else (case tools of
                  Arr xs \<Rightarrow>
                    if list_ex nullish xs then Inl TypeError
                    else render ''handleToolsList'' data
                | _ \<Rightarrow> Inl TypeError))"

text \<open>\<^verbatim>\<open>Object.values(servers)\<close>\<close>

fun object_values :: "jsval \<Rightarrow> jsval list" where
  "object_values (Obj ps) = map snd ps"
| "object_values (Arr xs) = xs"
| "object_values (Str s) = map (\<lambda>c. Str [c]) s"
| "object_values v = []"

text \<open>\<^verbatim>\<open>v.toString()\<close>: an own property of that name, read from JSON, is not a function.\<close>

fun call_toString :: "jsval \<Rightarrow> error + unit" where
  "call_toString Undefined = Inl TypeError"
| "call_toString Null = Inl TypeError"
| "call_toString (Obj ps) =
     (if js ''toString'' \<in> fst ` set ps then Inl TypeError else Inr ())"
| "call_toString v = Inr ()"

definition server_row :: "jsval \<Rightarrow> error + unit" where
  "server_row server =
     (case read_prop server (js ''tools_count'') of
        Inl e \<Rightarrow> Inl e
      | Inr n \<Rightarrow> call_toString n)"

definition handleServersList :: "renderer \<Rightarrow> obj \<Rightarrow> error + unit" where
  "handleServersList render data =
     (let servers = get data (js ''servers'') in
      case read_prop servers (js ''length'') of
        Inl e \<Rightarrow> Inl e
      | Inr n \<Rightarrow>
          if n = Num 0 then render ''handleServersList'' data
          else if list_ex (\<lambda>server. server_row server \<noteq> Inr ()) (object_values servers)
          then Inl TypeError
          else render ''handleServersList'' data)"

definition handleQueryResponse :: "renderer \<Rightarrow> obj \<Rightarrow> error + unit" where
  "handleQueryResponse render data = render ''handleQueryResponse'' data"

definition handleThinking :: "renderer \<Rightarrow> obj \<Rightarrow> error + unit" where
  "handleThinking render data = render ''handleThinking'' data"

definition handleStatus :: "renderer \<Rightarrow> obj \<Rightarrow> error + unit" where
  "handleStatus render data = render ''handleStatus'' data"

definition handleError :: "renderer \<Rightarrow> obj \<Rightarrow> error + unit" where
  "handleError render data = render ''handleError'' data"

text \<open>The \<^verbatim>\<open>switch (type)\<close> of \<^verbatim>\<open>handleMessage\<close>, case by case.\<close>

definition dispatch_table :: "(jsstring \<times> string \<times> (renderer \<Rightarrow> obj \<Rightarrow> error + unit)) list" where
  "dispatch_table = [
     (js ''server_connected'', ''handleServerConnected'', handleServerConnected),
     (js ''server_disconnected'', ''handleServerDisconnected'', handleServerDisconnected),
     (js ''tools_list'', ''handleToolsList'', handleToolsList),
     (js ''servers_list'', ''handleServersList'', handleServersList),
     (js ''query_response'', ''handleQueryResponse'', handleQueryResponse),
     (js ''thinking'', ''handleThinking'', handleThinking),
     (js ''status'', ''handleStatus'', handleStatus),
     (js ''error'', ''handleError'', handleError)]"

text \<open>
  \<^verbatim>\<open>const { type, ...data } = message\<close>: a TypeError on \<^verbatim>\<open>null\<close>; the rest holds the
  other own properties, which for an array or a string are its indices.
\<close>

definition indexed :: "jsval list \<Rightarrow> obj" where
  "indexed xs = zip (map dec_of_nat [0..<length xs]) xs"

fun destructure :: "jsval \<Rightarrow> error + jsval \<times> obj" where
  "destructure Undefined = Inl TypeError"
| "destructure Null = Inl TypeError"
| "destructure (Obj ps) = Inr (get ps (js ''type''), filter (\<lambda>(k, v). k \<noteq> js ''type'') ps)"
| "destructure (Arr xs) = Inr (Undefined, indexed xs)"
| "destructure (Str s) = Inr (Undefined, indexed (map (\<lambda>c. Str [c]) s))"
| "destructure v = Inr (Undefined, [])"

text \<open>
  \<^verbatim>\<open>handleMessage(message)\<close> of the client: the outcome and the events in order. An
  exception of a handler leaves the function before \<^verbatim>\<open>this.emit\<close>.
\<close>

definition handleMessage :: "renderer \<Rightarrow> jsval \<Rightarrow> (error + unit) \<times> event list" where
  "handleMessage render message =
     (case destructure message of
        Inl e \<Rightarrow> (Inl e, [])
      | Inr (ty, data) \<Rightarrow>
          (case find (\<lambda>(t, name, handler). ty = Str t) dispatch_table of
             Some (t, name, handler) \<Rightarrow>
               (case handler render data of
                  Inl e \<Rightarrow> (Inl e, [Invoke name data])
                | Inr _ \<Rightarrow> (Inr (), [Invoke name data, Emit (js ''message'') message]))
           | None \<Rightarrow>
               (Inr (), [Console ''Unknown message type:'' [ty],
                         Emit (js ''message'') message])))"

section \<open>The session store: \<^verbatim>\<open>SessionManager\<close>\<close>

text \<open>
  A file holds JSON text (the value it denotes), or text that \<^verbatim>\<open>JSON.parse\<close> rejects,
  or it cannot be read. A path in \<open>readonly\<close> cannot be written. The platform gives
  \<^verbatim>\<open>path.join\<close>, the session directory, \<^verbatim>\<open>JSON.stringify\<close> as text, and the engine's
  conversions between Numbers and strings where their digits matter.
\<close>

datatype file_content = Json jsval | Malformed | Unreadable

record filesystem =
  files :: "jsstring \<rightharpoonup> file_content"
  readonly :: "jsstring \<Rightarrow> bool"

record platform =
  path_join :: "jsstring \<Rightarrow> jsstring \<Rightarrow> jsstring"
  sessionDir :: jsstring
  JSON_stringify :: "jsval \<Rightarrow> jsstring"
  Number_toString :: "jsval \<Rightarrow> jsstring"
  StringToNumber :: "jsstring \<Rightarrow> jsval"

definition sessionFile :: "platform \<Rightarrow> jsstring \<Rightarrow> jsstring" where
  "sessionFile pf name = path_join pf (sessionDir pf) (name @ js ''.json'')"

text \<open>\<^verbatim>\<open>loadSession(sessionId)\<close>: \<^verbatim>\<open>null\<close> when reading or parsing fails.\<close>

definition loadSession :: "platform \<Rightarrow> filesystem \<Rightarrow> jsstring \<Rightarrow> jsval" where
  "loadSession pf disk sessionId =
     (case files disk (sessionFile pf sessionId) of
        Some (Json v) \<Rightarrow> v
      | _ \<Rightarrow> Null)"

text \<open>
  \<^verbatim>\<open>saveSession(session)\<close>: the file is named by \<^verbatim>\<open>session.id\<close>; a failed write is
  caught and warned about.
\<close>

definition saveSession ::
  "platform \<Rightarrow> filesystem \<Rightarrow> jsval \<Rightarrow> error + filesystem \<times> event list" where
  "saveSession pf disk session =
     (case read_prop session (js ''id'') of
        Inl e \<Rightarrow> Inl e
      | Inr i \<Rightarrow>
          (case to_string (Number_toString pf) i of
             Inl e \<Rightarrow> Inl e
           | Inr name \<Rightarrow>
               if readonly disk (sessionFile pf name)
               then Inr (disk, [Console ''Failed to save session:'' []])
               else Inr (disk\<lparr>files := (files disk)(sessionFile pf name \<mapsto>
                                                       Json (json_clean session))\<rparr>, [])))"

text \<open>
  \<^verbatim>\<open>addToHistory(sessionId, entry)\<close>, with \<open>now\<close> for \<^verbatim>\<open>new Date().toISOString()\<close>.
  Only an array has \<^verbatim>\<open>push\<close>.
\<close>

definition addToHistory ::
  "platform \<Rightarrow> filesystem \<Rightarrow> jsstring \<Rightarrow> jsstring \<Rightarrow> obj \<Rightarrow> error + filesystem \<times> event list" where
  "addToHistory pf disk now sessionId entry =
     (let session = loadSession pf disk sessionId in
      if truthy session then
        (case session of
           Obj ps \<Rightarrow>
             (case get ps (js ''history'') of
                Arr h \<Rightarrow>
                  saveSession pf disk
                    (Obj (put (js ''history'')
                            (Arr (h @ [Obj (assign entry [(js ''timestamp'', Str now)])])) ps))
              | _ \<Rightarrow> Inl TypeError)
         | _ \<Rightarrow> Inl TypeError)
      else Inr (disk, []))"

text \<open>\<^verbatim>\<open>getHistory(sessionId)\<close>\<close>

definition getHistory :: "platform \<Rightarrow> filesystem \<Rightarrow> jsstring \<Rightarrow> jsval" where
  "getHistory pf disk sessionId =
     (let session = loadSession pf disk sessionId in
      if truthy session
      then (case read_prop session (js ''history'') of Inr h \<Rightarrow> h | Inl e \<Rightarrow> Undefined)
      else Arr [])"

section \<open>The REPL: \<^verbatim>\<open>BrainREPL\<close>\<close>

text \<open>
  The state that the REPL and its collaborators hold. The clock gives the text of
  \<^verbatim>\<open>new Date().toISOString()\<close> at each reading. An action returns the events it
  caused in order, the exception that left it if any, and the new state. Console output
  is taken to return normally.
\<close>

record world =
  storage :: filesystem
  brain :: client
  clock :: "nat \<Rightarrow> jsstring"
  ticks :: nat
  currentSessionId :: jsstring
  isRunning :: bool

type_synonym act = "world \<Rightarrow> event list \<times> error option \<times> world"

definition andThen :: "act \<Rightarrow> act \<Rightarrow> act" where
  "andThen a b w =
     (case a w of
        (evs, Some e, w') \<Rightarrow> (evs, Some e, w')
      | (evs, None, w') \<Rightarrow> (case b w' of (evs', r, w'') \<Rightarrow> (evs @ evs', r, w'')))"

definition try_catch :: "act \<Rightarrow> (error \<Rightarrow> act) \<Rightarrow> act" where
  "try_catch a h w =
     (case a w of
        (evs, Some e, w') \<Rightarrow> (case h e w' of (evs', r, w'') \<Rightarrow> (evs @ evs', r, w''))
      | (evs, None, w') \<Rightarrow> (evs, None, w'))"

definition say :: "string \<Rightarrow> jsval list \<Rightarrow> act" where
  "say name vs w = ([Console name vs], None, w)"

definition raise :: "error \<Rightarrow> act" where
  "raise e w = ([], Some e, w)"

definition skip :: act where
  "skip w = ([], None, w)"

text \<open>\<^verbatim>\<open>this.sessionManager.addToHistory(this.currentSessionId, entry)\<close>\<close>

definition repl_addToHistory :: "platform \<Rightarrow> obj \<Rightarrow> act" where
  "repl_addToHistory pf entry w =
     (let call = Call ''sessionManager.addToHistory'' [Str (currentSessionId w), Obj entry] in
      case addToHistory pf (storage w) (clock w (ticks w)) (currentSessionId w) entry of
        Inl e \<Rightarrow> ([call], Some e, w\<lparr>ticks := Suc (ticks w)\<rparr>)
      | Inr (disk', evs) \<Rightarrow> (call # evs, None, w\<lparr>storage := disk', ticks := Suc (ticks w)\<rparr>))"

text \<open>The methods of the client that the REPL calls, on the client of the state.\<close>

definition client_sendCommand :: "jsval \<Rightarrow> obj \<Rightarrow> act" where
  "client_sendCommand command params w =
     (case sendCommand (brain w) command params of
        (Inl e, c) \<Rightarrow> ([], Some e, w\<lparr>brain := c\<rparr>)
      | (Inr u, c) \<Rightarrow> ([], None, w\<lparr>brain := c\<rparr>))"

definition sendQuery :: "jsval \<Rightarrow> act" where
  "sendQuery query =
     andThen (say ''client.sendQuery'' [query])
             (client_sendCommand (Str (js ''query'')) [(js ''query'', query)])"

definition connectServer :: "jsval \<Rightarrow> jsval \<Rightarrow> act" where
  "connectServer serverId serverConfig =
     andThen (say ''client.connectServer'' [serverId])
       (try_catch
          (andThen (client_sendCommand (Str (js ''connect_server''))
                      [(js ''server_id'', serverId), (js ''server_config'', serverConfig)])
                   (say ''connected successfully'' [serverId]))
          (\<lambda>e. andThen (say ''Failed to connect server'' [serverId]) (raise e)))"

definition listServers :: act where
  "listServers =
     andThen (say ''client.listServers'' []) (client_sendCommand (Str (js ''get_servers'')) [])"

definition listTools :: "jsval \<Rightarrow> act" where
  "listTools serverId =
     andThen (say ''client.listTools'' [serverId])
             (client_sendCommand (Str (js ''list_tools'')) [(js ''server_id'', serverId)])"

definition showStatus :: act where
  "showStatus w =
     (if connected (brain w)
      then andThen (say ''client.showStatus'' [])
             (andThen (client_sendCommand (Str (js ''get_servers'')) [])
                      (say ''System status retrieved'' [])) w
      else andThen (say ''client.showStatus'' []) (say ''Not connected to Brain server'' []) w)"

definition client_disconnect :: act where
  "client_disconnect w = ([Call ''client.disconnect'' []], None, w\<lparr>brain := disconnect (brain w)\<rparr>)"

text \<open>The handlers of the REPL.\<close>

definition query_text :: "platform \<Rightarrow> string \<Rightarrow> jsstring \<Rightarrow> obj \<Rightarrow> jsstring" where
  "query_text pf server operation params =
     js ''Use the '' @ js server @ js '' server to perform: '' @ operation @
     js '' with parameters: '' @ JSON_stringify pf (Obj params)"

definition handleFileOperation :: "platform \<Rightarrow> jsstring \<Rightarrow> obj \<Rightarrow> act" where
  "handleFileOperation pf operation params =
     try_catch (sendQuery (Str (query_text pf ''filesystem'' operation params)))
               (\<lambda>e. say ''File operation failed:'' [])"

definition handleGitOperation :: "platform \<Rightarrow> jsstring \<Rightarrow> obj \<Rightarrow> act" where
  "handleGitOperation pf operation params =
     try_catch (sendQuery (Str (query_text pf ''git'' operation params)))
               (\<lambda>e. say ''Git operation failed:'' [])"

definition handleCodebaseOperation :: "platform \<Rightarrow> jsstring \<Rightarrow> obj \<Rightarrow> act" where
  "handleCodebaseOperation pf operation params =
     try_catch (sendQuery (Str (query_text pf ''codebase'' operation params)))
               (\<lambda>e. say ''Codebase operation failed:'' [])"

definition handleQuery :: "platform \<Rightarrow> jsval \<Rightarrow> act" where
  "handleQuery pf query =
     andThen (repl_addToHistory pf [(js ''type'', Str (js ''query'')), (js ''content'', query)])
             (sendQuery query)"

definition handleDevelopmentQuery :: "jsstring \<Rightarrow> act" where
  "handleDevelopmentQuery inp =
     sendQuery (Str (js ''As a development assistant, help with: '' @ inp))"

definition handleConnectServer :: "jsval \<Rightarrow> jsval \<Rightarrow> act" where
  "handleConnectServer serverId config =
     try_catch (andThen (connectServer serverId config) (say ''Connected to server:'' [serverId]))
               (\<lambda>e. say ''Failed to connect server:'' [])"

definition handleListTools :: "jsval \<Rightarrow> act" where
  "handleListTools serverId =
     (if \<not> truthy serverId then say ''Please specify a server ID.'' []
      else try_catch (listTools serverId) (\<lambda>e. say ''Failed to list tools:'' []))"

definition showHelp :: act where
  "showHelp = say ''showHelp'' []"

definition console_clear :: act where
  "console_clear = say ''console.clear'' []"

text \<open>\<^verbatim>\<open>handleExit()\<close>: the summary is printed if \<^verbatim>\<open>history.length > 0\<close>.\<close>

definition handleExit :: "platform \<Rightarrow> act" where
  "handleExit pf w =
     andThen
       (if currentSessionId w \<noteq> [] then
          (case read_prop (getHistory pf (storage w) (currentSessionId w)) (js ''length'') of
             Inl e \<Rightarrow> raise e
           | Inr n \<Rightarrow>
               (case greater_than_zero (Number_toString pf) (StringToNumber pf) n of
                  Inl e \<Rightarrow> raise e
                | Inr b \<Rightarrow> if b then say ''Session saved'' [n] else skip))
        else skip)
       (andThen (say ''Goodbye!'' [])
          (andThen client_disconnect
             (\<lambda>w'. ([Call ''process.exit'' [Num 0]], None, w'\<lparr>isRunning := False\<rparr>)))) w"

text \<open>\<^verbatim>\<open>showHistory()\<close>: \<^verbatim>\<open>history.forEach(entry => ... entry.timestamp ...)\<close>.\<close>

definition showHistory :: "platform \<Rightarrow> act" where
  "showHistory pf w =
     (let history = getHistory pf (storage w) (currentSessionId w) in
      case read_prop history (js ''length'') of
        Inl e \<Rightarrow> raise e w
      | Inr n \<Rightarrow>
          if n = Num 0 then say ''No conversation history in this session'' [] w
          else (case history of
                  Arr entries \<Rightarrow>
                    if list_ex nullish entries
                    then andThen (say ''Conversation History:'' []) (raise TypeError) w
                    else say ''Conversation History:'' [history] w
                | _ \<Rightarrow> andThen (say ''Conversation History:'' []) (raise TypeError) w))"

text \<open>\<^verbatim>\<open>showSessions()\<close> prints a scan of the session directory.\<close>

definition showSessions :: act where
  "showSessions = say ''showSessions'' []"

text \<open>The \<^verbatim>\<open>switch (command.type)\<close> of \<^verbatim>\<open>processInput\<close>.\<close>

definition dispatch :: "platform \<Rightarrow> jsstring \<Rightarrow> obj \<Rightarrow> act" where
  "dispatch pf inp command =
     (let ty = get command (js ''type''); field = (\<lambda>k. get command (js k)) in
      if ty = Str (js ''read_file'') then
        handleFileOperation pf (js ''read_file'') [(js ''path'', field ''filePath'')]
      else if ty = Str (js ''write_file'') then
        handleFileOperation pf (js ''write_file'') [(js ''path'', field ''filePath'')]
      else if ty = Str (js ''edit_file'') then
        handleFileOperation pf (js ''edit_file'') [(js ''path'', field ''filePath'')]
      else if ty = Str (js ''list_directory'') then
        handleFileOperation pf (js ''list_directory'') [(js ''path'', field ''path'')]
      else if ty = Str (js ''search_files'') then
        handleFileOperation pf (js ''search_files'')
          [(js ''pattern'', field ''pattern''), (js ''directory'', field ''directory'')]
      else if ty = Str (js ''create_directory'') then
        handleFileOperation pf (js ''create_directory'') [(js ''path'', field ''path'')]
      else if ty = Str (js ''git_status'') then
        handleGitOperation pf (js ''git_status'') []
      else if ty = Str (js ''git_diff'') then
        handleGitOperation pf (js ''git_diff'') [(js ''file_path'', field ''filePath'')]
      else if ty = Str (js ''git_log'') then
        handleGitOperation pf (js ''git_log'') [(js ''limit'', field ''limit'')]
      else if ty = Str (js ''git_add'') then
        handleGitOperation pf (js ''git_add'') [(js ''file_paths'', field ''files'')]
      else if ty = Str (js ''git_commit'') then
        handleGitOperation pf (js ''git_commit'') [(js ''message'', field ''message'')]
      else if ty = Str (js ''git_branch_info'') then
        handleGitOperation pf (js ''git_branch_info'') []
      else if ty = Str (js ''analyze_project'') then
        handleCodebaseOperation pf (js ''analyze_project'') []
      else if ty = Str (js ''explain_codebase'') then
        handleCodebaseOperation pf (js ''explain_codebase'') []
      else if ty = Str (js ''get_project_structure'') then
        handleCodebaseOperation pf (js ''get_project_structure'') []
      else if ty = Str (js ''find_definition'') then
        handleCodebaseOperation pf (js ''find_definition'')
          [(js ''symbol'', field ''symbol''), (js ''file_path'', field ''filePath'')]
      else if ty = Str (js ''find_references'') then
        handleCodebaseOperation pf (js ''find_references'')
          [(js ''symbol'', field ''symbol''), (js ''file_path'', field ''filePath'')]
      else if ty = Str (js ''connect_server'') then
        handleConnectServer (field ''serverId'') (field ''config'')
      else if ty = Str (js ''list_servers'') then listServers
      else if ty = Str (js ''list_tools'') then handleListTools (field ''serverId'')
      else if ty = Str (js ''query'') then handleQuery pf (field ''query'')
      else if ty = Str (js ''unknown'') then
        (if isDevelopmentCommand inp then handleDevelopmentQuery inp
         else handleQuery pf (Str inp))
      else handleQuery pf (Str inp))"

text \<open>\<^verbatim>\<open>processInput(input)\<close>\<close>

definition processInput :: "platform \<Rightarrow> jsstring \<Rightarrow> act" where
  "processInput pf inp =
     andThen
       (repl_addToHistory pf [(js ''type'', Str (js ''user'')), (js ''content'', Str inp)])
       (if toLowerCase inp = js ''exit'' \<or> toLowerCase inp = js ''quit'' then handleExit pf
        else if toLowerCase inp = js ''help'' then showHelp
        else if toLowerCase inp = js ''status'' then showStatus
        else if toLowerCase inp = js ''clear'' then console_clear
        else if toLowerCase inp = js ''history'' then showHistory pf
        else if startsWith (toLowerCase inp) (js ''sessions'') then showSessions
        else (case parse inp of
                Inl e \<Rightarrow> raise e
              | Inr command \<Rightarrow> dispatch pf inp command))"

text \<open>
  One turn of \<^verbatim>\<open>mainLoop\<close> on the line that the prompt returned: a blank line is
  skipped, an exception of \<^verbatim>\<open>processInput\<close> is printed.
\<close>

definition mainLoop_turn :: "platform \<Rightarrow> jsstring \<Rightarrow> act" where
  "mainLoop_turn pf line =
     (if trim line = [] then skip
      else try_catch (processInput pf (trim line)) (\<lambda>e. say ''Error:'' []))"

text \<open>\<^verbatim>\<open>handleMessage(message)\<close> of the REPL, the listener on the generic channel.\<close>

definition repl_handleMessage :: "platform \<Rightarrow> jsval \<Rightarrow> act" where
  "repl_handleMessage pf message =
     (case read_prop message (js ''type'') of
        Inl e \<Rightarrow> raise e
      | Inr ty \<Rightarrow>
          if ty = Str (js ''query_response'') then
            (case read_prop message (js ''response'') of
               Inl e \<Rightarrow> raise e
             | Inr response \<Rightarrow>
                 repl_addToHistory pf
                   [(js ''type'', Str (js ''response'')), (js ''content'', response)])
          else skip)"

section \<open>Definitions for the proofs\<close>

fun must :: "nat \<Rightarrow> re \<Rightarrow> bool" where
  "must n (Grp k r) = (k = n \<or> must n r)"
| "must n (Seq a b) = (must n a \<or> must n b)"
| "must n (Alt a b) = (must n a \<and> must n b)"
| "must n _ = False"

fun only_plus :: "nat \<Rightarrow> atom \<Rightarrow> re \<Rightarrow> bool" where
  "only_plus n a (Grp k r) = (if k = n then r = Plus a else only_plus n a r)"
| "only_plus n a (Seq r1 r2) = (only_plus n a r1 \<and> only_plus n a r2)"
| "only_plus n a (Alt r1 r2) = (only_plus n a r1 \<and> only_plus n a r2)"
| "only_plus n a (Opt r) = only_plus n a r"
| "only_plus n a _ = True"

definition run_of :: "atom \<Rightarrow> jsstring option \<Rightarrow> bool" where
  "run_of a g = (case g of None \<Rightarrow> True | Some x \<Rightarrow> x \<noteq> [] \<and> list_all (atom_match a) x)"

definition rule_ok :: "rule \<Rightarrow> bool" where
  "rule_ok r \<longleftrightarrow>
     (\<forall>t m. match t (pattern r) = Some m \<longrightarrow>
        (case extract' r of
           None \<Rightarrow> True
         | Some f \<Rightarrow> \<exists>ex. f m = Inr ex \<and> js ''type'' \<notin> fst ` set ex))"

definition is_json :: "jsval \<Rightarrow> bool" where
  "is_json v \<longleftrightarrow> json_clean v = v"

definition demo_platform :: platform where
  "demo_platform = \<lparr>path_join = (\<lambda>a b. a @ js ''/'' @ b), sessionDir = js ''sessions'',
                     JSON_stringify = (\<lambda>v. js ''{}''), Number_toString = (\<lambda>v. js ''1e+21''),
                     StringToNumber = (\<lambda>s. Undefined)\<rparr>"

definition demo_disk :: filesystem where
  "demo_disk = \<lparr>files = [js ''sessions/ab12.json'' \<mapsto>
                    Json (Obj [(js ''id'', Str (js ''ab12'')),
                               (js ''created'', Str (js ''2024'')),
                               (js ''history'', Arr [])])],
                 readonly = (\<lambda>p. False)\<rparr>"

fun history_entry :: "event \<Rightarrow> obj option" where
  "history_entry (Call name [sid, Obj entry]) =
     (if name = ''sessionManager.addToHistory'' then Some entry else None)"
| "history_entry ev = None"

definition appended :: "event list \<Rightarrow> obj list" where
  "appended evs = List.map_filter history_entry evs"

definition quiet :: "act \<Rightarrow> bool" where
  "quiet a \<longleftrightarrow> (\<forall>w. appended (fst (a w)) = [])"

definition entry_types :: "event list \<Rightarrow> jsval list" where
  "entry_types evs = map (\<lambda>entry. get entry (js ''type'')) (appended evs)"

definition demo_world :: world where
  "demo_world = \<lparr>storage = demo_disk, brain = constructor,
                  clock = (\<lambda>n. js ''2024-01-01T00:00:00.000Z''), ticks = 0,
                  currentSessionId = js ''ab12'', isRunning = True\<rparr>"

text \<open>A renderer that always returns, and two frames, for the concrete instances.\<close>

definition plain_render :: renderer where
  "plain_render name data = Inr ()"

definition response_frame :: jsval where
  "response_frame = Obj [(js ''type'', Str (js ''query_response'')),
                         (js ''query'', Str (js ''hi'')),
                         (js ''response'', Str (js ''hello''))]"

definition thinking_frame :: jsval where
  "thinking_frame = Obj [(js ''type'', Str (js ''thinking'')), (js ''message'', Str (js ''hm''))]"




text \<open>
  A session that \<open>addToHistory\<close> can extend: its file holds an object of JSON data
  whose \<open>history\<close> is the array \<open>h\<close> and whose \<open>id\<close> prints as the name of the session,
  and the file can be written.
\<close>

definition session_record :: "platform \<Rightarrow> filesystem \<Rightarrow> jsstring \<Rightarrow> jsval list \<Rightarrow> bool" where
  "session_record pf disk sid h =
     (case files disk (sessionFile pf sid) of
        Some (Json (Obj ps)) \<Rightarrow>
          get ps (js ''history'') = Arr h \<and>
          to_string (Number_toString pf) (get ps (js ''id'')) = Inr sid \<and>
          is_json (Obj ps) \<and> \<not> readonly disk (sessionFile pf sid)
      | _ \<Rightarrow> False)"

text \<open>The state that an action leaves, and the actions that leave the store, the active
  session and the clock as they were.\<close>

definition final :: "act \<Rightarrow> world \<Rightarrow> world" where
  "final a w = snd (snd (a w))"

definition keeps :: "act \<Rightarrow> bool" where
  "keeps a \<longleftrightarrow>
     (\<forall>w. storage (final a w) = storage w \<and> currentSessionId (final a w) = currentSessionId w \<and>
          clock (final a w) = clock w \<and> ticks (final a w) = ticks w)"

text \<open>The events that open a socket; a client on whose first socket a second
  \<^verbatim>\<open>connect\<close> followed the opening.\<close>

fun opens :: "call \<Rightarrow> bool" where
  "opens (SocketOpen i) = True"
| "opens x = False"

definition stale_client :: client where
  "stale_client = client_after [Connect, SocketOpen 0, Connect]"

text \<open>
  Stores on which an append does not show in the history: the file cannot be written,
  the record holds another id, the record has no history; a state whose active
  session has no record, and one whose store cannot be written.
\<close>

definition readonly_disk :: filesystem where
  "readonly_disk = demo_disk\<lparr>readonly := (\<lambda>p. True)\<rparr>"

definition misnamed_disk :: filesystem where
  "misnamed_disk = \<lparr>files = [js ''sessions/ab12.json'' \<mapsto>
                        Json (Obj [(js ''id'', Str (js ''other'')),
                                   (js ''created'', Str (js ''2024'')),
                                   (js ''history'', Arr [])])],
                     readonly = (\<lambda>p. False)\<rparr>"

definition broken_disk :: filesystem where
  "broken_disk = \<lparr>files = [js ''sessions/ab12.json'' \<mapsto>
                      Json (Obj [(js ''id'', Str (js ''ab12'')),
                                 (js ''created'', Str (js ''2024''))])],
                   readonly = (\<lambda>p. False)\<rparr>"

definition lost_world :: world where
  "lost_world = demo_world\<lparr>currentSessionId := js ''zz''\<rparr>"

definition readonly_world :: world where
  "readonly_world = demo_world\<lparr>storage := readonly_disk\<rparr>"

section \<open>Lemmas\<close>

lemma lit_caps: "st' \<in> set (lit ic ps st) \<Longrightarrow> snd (snd st') = snd (snd st)"
  by (induction ic ps st rule: lit.induct) (auto split: if_splits)

lemma step_caps: "st' \<in> set (step a st) \<Longrightarrow> snd (snd st') = snd (snd st)"
  by (induction a st rule: step.induct) (auto split: if_splits)

lemma star_caps: "st' \<in> set (star a st) \<Longrightarrow> snd (snd st') = snd (snd st)"
  by (induction a st rule: star.induct) (auto split: if_splits)

lemma star_lazy_caps: "st' \<in> set (star_lazy a st) \<Longrightarrow> snd (snd st') = snd (snd st)"
  by (induction a st rule: star_lazy.induct) (auto split: if_splits)

lemma run_keeps:
  "st' \<in> set (run ic r st) \<Longrightarrow> snd (snd st) n \<noteq> None \<Longrightarrow> snd (snd st') n \<noteq> None"
proof (induction r arbitrary: st st')
  case (Lit ps)
  then show ?case using lit_caps[of st' ic ps st] by simp
next
  case (One a)
  then show ?case using step_caps[of st' a st] by simp
next
  case (Star a)
  then show ?case using star_caps[of st' a st] by simp
next
  case (Plus a)
  from Plus(1) obtain mid where "mid \<in> set (step a st)" "st' \<in> set (star a mid)" by auto
  then show ?case using star_caps[of st' a mid] step_caps[of mid a st] Plus(2) by simp
next
  case (PlusLazy a)
  from PlusLazy(1) obtain mid where "mid \<in> set (step a st)" "st' \<in> set (star_lazy a mid)" by auto
  then show ?case using star_lazy_caps[of st' a mid] step_caps[of mid a st] PlusLazy(2) by simp
next
  case (Seq r1 r2)
  from Seq.prems(1) obtain mid where "mid \<in> set (run ic r1 st)" "st' \<in> set (run ic r2 mid)"
    by auto
  then show ?case using Seq.IH Seq.prems(2) by blast
next
  case (Alt r1 r2)
  from Alt.prems(1) have "st' \<in> set (run ic r1 st) \<or> st' \<in> set (run ic r2 st)" by simp
  then show ?case using Alt.IH Alt.prems(2) by blast
next
  case (Opt r)
  from Opt.prems(1) have "st' \<in> set (run ic r st) \<or> st' = st" by auto
  then show ?case using Opt.IH Opt.prems(2) by blast
next
  case (Grp k r)
  obtain i s c where st: "st = (i, s, c)" by (cases st)
  from Grp.prems(1) st obtain j s' c' where
    mid: "(j, s', c') \<in> set (run ic r (i, s, c))" and st': "st' = (j, s', c'(k \<mapsto> take (j - i) s))"
    by auto
  have "c' n \<noteq> None" using Grp.IH[OF mid] Grp.prems(2) st by simp
  then show ?case using st' by simp
next
  case Bol
  then show ?case by (cases st) (simp split: if_splits)
next
  case Eol
  then show ?case by (cases st) (simp split: if_splits)
qed

lemma run_must:
  "must n r \<Longrightarrow> st' \<in> set (run ic r st) \<Longrightarrow> snd (snd st') n \<noteq> None"
proof (induction r arbitrary: st st')
  case (Seq r1 r2)
  from Seq.prems(2) obtain mid where mid: "mid \<in> set (run ic r1 st)" "st' \<in> set (run ic r2 mid)"
    by auto
  show ?case
  proof (cases "must n r1")
    case True
    then have "snd (snd mid) n \<noteq> None" using Seq.IH(1) mid(1) by blast
    then show ?thesis using run_keeps mid(2) by blast
  next
    case False
    then have "must n r2" using Seq.prems(1) by simp
    then show ?thesis using Seq.IH(2) mid(2) by blast
  qed
next
  case (Alt r1 r2)
  from Alt.prems(2) have "st' \<in> set (run ic r1 st) \<or> st' \<in> set (run ic r2 st)" by simp
  moreover have "must n r1" "must n r2" using Alt.prems(1) by simp_all
  ultimately show ?case using Alt.IH(1)[of st' st] Alt.IH(2)[of st' st] by blast
next
  case (Grp k r)
  obtain i s c where st: "st = (i, s, c)" by (cases st)
  from Grp.prems(2) st obtain j s' c' where
    mid: "(j, s', c') \<in> set (run ic r (i, s, c))" and st': "st' = (j, s', c'(k \<mapsto> take (j - i) s))"
    by auto
  show ?case
  proof (cases "k = n")
    case True
    then show ?thesis using st' by simp
  next
    case False
    then have "must n r" using Grp.prems(1) by simp
    then have "c' n \<noteq> None" using Grp.IH[OF _ mid] by simp
    then show ?thesis using st' by simp
  qed
qed simp_all

lemma match_from_must:
  "match_from rx inp i s = Some m \<Longrightarrow> must n (body rx) \<Longrightarrow> n \<noteq> 0 \<Longrightarrow> groups m n \<noteq> None"
proof (induction rx inp i s rule: match_from.induct)
  case (1 rx inp i s)
  show ?case
  proof (cases "run (ignoreCase rx) (body rx) (i, s, Map.empty)")
    case Nil
    then show ?thesis using 1 by (cases s) auto
  next
    case (Cons st sts)
    obtain j s' caps where st: "st = (j, s', caps)" by (cases st)
    have "st \<in> set (run (ignoreCase rx) (body rx) (i, s, Map.empty))" using Cons by simp
    then have "caps n \<noteq> None" using run_must[OF 1(3), of st] st by simp
    then show ?thesis using 1(2) Cons st \<open>n \<noteq> 0\<close> by auto
  qed
qed

lemma match_must: "match t rx = Some m \<Longrightarrow> must n (body rx) \<Longrightarrow> n \<noteq> 0 \<Longrightarrow> groups m n \<noteq> None"
  unfolding match_def by (rule match_from_must)

lemma star_take:
  "(j, s', c') \<in> set (star a (i, s, c)) \<Longrightarrow>
     i \<le> j \<and> list_all (atom_match a) (take (j - i) s)"
proof (induction s arbitrary: i)
  case Nil
  then show ?case by simp
next
  case (Cons x xs)
  show ?case
  proof (cases "(j, s', c') = (i, x # xs, c)")
    case True
    then show ?thesis by simp
  next
    case False
    then have m: "atom_match a x" and rest: "(j, s', c') \<in> set (star a (Suc i, xs, c))"
      using Cons.prems by (auto split: if_splits)
    from Cons.IH[OF rest] have le: "Suc i \<le> j" and all: "list_all (atom_match a) (take (j - Suc i) xs)"
      by simp_all
    from le have "j - i = Suc (j - Suc i)" by simp
    then show ?thesis using m all le by simp
  qed
qed

lemma plus_take:
  assumes "(j, s', c') \<in> set (run ic (Plus a) (i, s, c))"
  shows "take (j - i) s \<noteq> [] \<and> list_all (atom_match a) (take (j - i) s)"
proof (cases s)
  case Nil
  then show ?thesis using assms by simp
next
  case (Cons x xs)
  then have m: "atom_match a x" and rest: "(j, s', c') \<in> set (star a (Suc i, xs, c))"
    using assms by (auto split: if_splits)
  from star_take[OF rest] have le: "Suc i \<le> j" and all: "list_all (atom_match a) (take (j - Suc i) xs)"
    by simp_all
  from le have "j - i = Suc (j - Suc i)" by simp
  then show ?thesis using m all Cons by simp
qed

lemma run_only_plus:
  "only_plus n a r \<Longrightarrow> st' \<in> set (run ic r st) \<Longrightarrow> run_of a (snd (snd st) n) \<Longrightarrow>
     run_of a (snd (snd st') n)"
proof (induction r arbitrary: st st')
  case (Lit ps)
  then show ?case using lit_caps[of st' ic ps st] by simp
next
  case (One b)
  then show ?case using step_caps[of st' b st] by simp
next
  case (Star b)
  then show ?case using star_caps[of st' b st] by simp
next
  case (Plus b)
  from Plus(2) obtain mid where "mid \<in> set (step b st)" "st' \<in> set (star b mid)" by auto
  then show ?case using star_caps[of st' b mid] step_caps[of mid b st] Plus(3) by simp
next
  case (PlusLazy b)
  from PlusLazy(2) obtain mid where "mid \<in> set (step b st)" "st' \<in> set (star_lazy b mid)" by auto
  then show ?case using star_lazy_caps[of st' b mid] step_caps[of mid b st] PlusLazy(3) by simp
next
  case (Seq r1 r2)
  from Seq.prems(2) obtain mid where "mid \<in> set (run ic r1 st)" "st' \<in> set (run ic r2 mid)"
    by auto
  moreover have "only_plus n a r1" "only_plus n a r2" using Seq.prems(1) by simp_all
  ultimately show ?case using Seq.IH(1)[of mid st] Seq.IH(2)[of st' mid] Seq.prems(3) by blast
next
  case (Alt r1 r2)
  from Alt.prems(2) have "st' \<in> set (run ic r1 st) \<or> st' \<in> set (run ic r2 st)" by simp
  moreover have "only_plus n a r1" "only_plus n a r2" using Alt.prems(1) by simp_all
  ultimately show ?case using Alt.IH(1)[of st' st] Alt.IH(2)[of st' st] Alt.prems(3) by blast
next
  case (Opt r)
  from Opt.prems(2) have "st' \<in> set (run ic r st) \<or> st' = st" by auto
  moreover have "only_plus n a r" using Opt.prems(1) by simp
  ultimately show ?case using Opt.IH[of st' st] Opt.prems(3) by blast
next
  case (Grp k r)
  obtain i s c where st: "st = (i, s, c)" by (cases st)
  from Grp.prems(2) st obtain j s' c' where
    mid: "(j, s', c') \<in> set (run ic r (i, s, c))" and st': "st' = (j, s', c'(k \<mapsto> take (j - i) s))"
    by auto
  show ?case
  proof (cases "k = n")
    case True
    then have "r = Plus a" using Grp.prems(1) by simp
    then show ?thesis using plus_take[of j s' c' ic a i s c] mid st' True by (simp add: run_of_def)
  next
    case False
    then have "only_plus n a r" using Grp.prems(1) by simp
    then have "run_of a (c' n)" using Grp.IH[OF _ mid] Grp.prems(3) st by simp
    then show ?thesis using st' False by simp
  qed
next
  case Bol
  then show ?case by (cases st) (simp split: if_splits)
next
  case Eol
  then show ?case by (cases st) (simp split: if_splits)
qed

lemma match_from_only_plus:
  "match_from rx inp i s = Some m \<Longrightarrow> only_plus n a (body rx) \<Longrightarrow> n \<noteq> 0 \<Longrightarrow>
     run_of a (groups m n)"
proof (induction rx inp i s rule: match_from.induct)
  case (1 rx inp i s)
  show ?case
  proof (cases "run (ignoreCase rx) (body rx) (i, s, Map.empty)")
    case Nil
    then show ?thesis using 1 by (cases s) auto
  next
    case (Cons st sts)
    obtain j s' caps where st: "st = (j, s', caps)" by (cases st)
    have "st \<in> set (run (ignoreCase rx) (body rx) (i, s, Map.empty))" using Cons by simp
    then have "run_of a (caps n)"
      using run_only_plus[OF 1(3), of st "ignoreCase rx" "(i, s, Map.empty)"] st
      by (simp add: run_of_def)
    then show ?thesis using 1(2) Cons st \<open>n \<noteq> 0\<close> by auto
  qed
qed

lemma match_only_plus:
  "match t rx = Some m \<Longrightarrow> only_plus n a (body rx) \<Longrightarrow> n \<noteq> 0 \<Longrightarrow> run_of a (groups m n)"
  unfolding match_def by (rule match_from_only_plus)

lemma get_put: "get (put k' v ps) k = (if k = k' then v else get ps k)"
  by (induction ps) auto

lemma get_assign: "k \<notin> fst ` set src \<Longrightarrow> get (assign tgt src) k = get tgt k"
  unfolding assign_def
  by (induction src arbitrary: tgt) (auto simp: get_put)

lemma ok_none: "rule_ok \<lparr>pattern = rx, type = ty, extract' = None\<rparr>"
  by (simp add: rule_ok_def)

lemma ok_total:
  "(\<And>m. \<exists>ex. f m = Inr ex \<and> js ''type'' \<notin> fst ` set ex) \<Longrightarrow>
     rule_ok \<lparr>pattern = rx, type = ty, extract' = Some f\<rparr>"
  by (simp add: rule_ok_def)

lemma of_char_word_inj: "(of_char c :: 16 word) = of_char d \<longleftrightarrow> c = d"
proof
  assume h: "(of_char c :: 16 word) = of_char d"
  have u: "unat (of_char x :: 16 word) = (of_char x :: nat)" for x :: char
  proof -
    have "(of_char x :: nat) < 65536" using nat_of_char_less_256[of x] by linarith
    then have "(of_char x :: nat) mod 65536 = of_char x" by (rule mod_less)
    then have "(of_char x :: nat) mod 2 ^ LENGTH(16) = of_char x" by simp
    then have "unat (of_nat (of_char x :: nat) :: 16 word) = of_char x" by (simp only: unat_of_nat)
    then show ?thesis by (simp add: of_nat_of_char)
  qed
  from h have "unat (of_char c :: 16 word) = unat (of_char d :: 16 word)" by simp
  then show "c = d" by (simp add: u)
qed simp

lemma js_eq_iff: "js a = js b \<longleftrightarrow> a = b"
proof -
  have "inj (of_char :: char \<Rightarrow> 16 word)" by (rule injI) (simp add: of_char_word_inj)
  then show ?thesis unfolding js_def by (simp add: inj_map_eq_map)
qed

lemma ok_trimmed1:
  assumes "must 1 (body rx)" "key \<noteq> ''type''"
  shows "rule_ok \<lparr>pattern = rx, type = ty, extract' = Some (trimmed1 key)\<rparr>"
  unfolding rule_ok_def
proof (intro allI impI)
  fix t m
  assume "match t (pattern \<lparr>pattern = rx, type = ty, extract' = Some (trimmed1 key)\<rparr>) = Some m"
  then have "groups m 1 \<noteq> None" using match_must[of t rx m 1] assms(1) by simp
  then show "case extract' \<lparr>pattern = rx, type = ty, extract' = Some (trimmed1 key)\<rparr> of
               None \<Rightarrow> True
             | Some f \<Rightarrow> \<exists>ex. f m = Inr ex \<and> js ''type'' \<notin> fst ` set ex"
    using assms(2) by (auto simp: trimmed1_def trim_of_def js_eq_iff)
qed

lemma ok_files:
  assumes "must 1 (body rx)"
  shows "rule_ok \<lparr>pattern = rx, type = ty, extract' = Some files_field\<rparr>"
  unfolding rule_ok_def
proof (intro allI impI)
  fix t m
  assume "match t (pattern \<lparr>pattern = rx, type = ty, extract' = Some files_field\<rparr>) = Some m"
  then have "groups m 1 \<noteq> None" using match_must[of t rx m 1] assms(1) by simp
  then show "case extract' \<lparr>pattern = rx, type = ty, extract' = Some files_field\<rparr> of
               None \<Rightarrow> True
             | Some f \<Rightarrow> \<exists>ex. f m = Inr ex \<and> js ''type'' \<notin> fst ` set ex"
    by (auto simp: files_field_def trim_of_def js_eq_iff)
qed

lemma ok_server:
  assumes "must 2 (body rx)"
  shows "rule_ok \<lparr>pattern = rx, type = ty, extract' = Some server_fields\<rparr>"
  unfolding rule_ok_def
proof (intro allI impI)
  fix t m
  assume "match t (pattern \<lparr>pattern = rx, type = ty, extract' = Some server_fields\<rparr>) = Some m"
  then have "groups m 2 \<noteq> None" using match_must[of t rx m 2] assms(1) by simp
  then show "case extract' \<lparr>pattern = rx, type = ty, extract' = Some server_fields\<rparr> of
               None \<Rightarrow> True
             | Some f \<Rightarrow> \<exists>ex. f m = Inr ex \<and> js ''type'' \<notin> fst ` set ex"
    by (auto simp: server_fields_def trim_of_def js_eq_iff)
qed

lemma ok_path:
  assumes "must 1 (body rx)"
  shows "rule_ok \<lparr>pattern = rx, type = ty, extract' = Some path_field\<rparr>"
  unfolding rule_ok_def
proof (intro allI impI)
  fix t m
  assume "match t (pattern \<lparr>pattern = rx, type = ty, extract' = Some path_field\<rparr>) = Some m"
  then have "groups m 1 \<noteq> None" using match_must[of t rx m 1] assms(1) by simp
  then show "case extract' \<lparr>pattern = rx, type = ty, extract' = Some path_field\<rparr> of
               None \<Rightarrow> True
             | Some f \<Rightarrow> \<exists>ex. f m = Inr ex \<and> js ''type'' \<notin> fst ` set ex"
    by (auto simp: path_field_def trim_of_def js_eq_iff)
qed

lemma atom_Digit: "atom_match Digit = isDigit"
  by (rule ext) simp

lemma ok_limit:
  assumes "only_plus 1 Digit (body rx)"
  shows "rule_ok \<lparr>pattern = rx, type = ty, extract' = Some limit_field\<rparr>"
  unfolding rule_ok_def
proof (intro allI impI)
  fix t m
  assume "match t (pattern \<lparr>pattern = rx, type = ty, extract' = Some limit_field\<rparr>) = Some m"
  then have "run_of Digit (groups m 1)" using match_only_plus[of t rx m 1 Digit] assms(1) by simp
  then show "case extract' \<lparr>pattern = rx, type = ty, extract' = Some limit_field\<rparr> of
               None \<Rightarrow> True
             | Some f \<Rightarrow> \<exists>ex. f m = Inr ex \<and> js ''type'' \<notin> fst ` set ex"
    by (auto simp: limit_field_def parseInt_def run_of_def js_eq_iff atom_Digit split: option.splits)
qed

lemmas rx_defs = re_i_def re_plain_def seqs_def alts_def

lemma patterns_ok: "list_all rule_ok patterns"
  unfolding patterns_def list.pred_inject
  apply (intro conjI TrueI)
  apply (rule ok_none
      | (rule ok_trimmed1; (simp add: rx_defs; fail))
      | (rule ok_files; (simp add: rx_defs; fail))
      | (rule ok_server; (simp add: rx_defs; fail))
      | (rule ok_path; (simp add: rx_defs; fail))
      | (rule ok_limit; (simp add: rx_defs; fail))
      | (rule ok_total; (simp add: search_fields_def symbol_fields_def js_eq_iff; fail)))+
  apply simp
  done

lemma parse_rules_result:
  "list_all rule_ok rs \<Longrightarrow>
     \<exists>c. parse_rules rs t = Inr c \<and>
       (case find (\<lambda>r. match t (pattern r) \<noteq> None) rs of
          None \<Rightarrow> c = [(js ''type'', Str (js ''unknown'')), (js ''input'', Str t)]
        | Some r \<Rightarrow> get c (js ''type'') = Str (type r))"
proof (induction rs)
  case Nil
  then show ?case by simp
next
  case (Cons r rs)
  show ?case
  proof (cases "match t (pattern r)")
    case None
    then show ?thesis using Cons by simp
  next
    case (Some m)
    show ?thesis
    proof (cases "extract' r")
      case None
      then show ?thesis using Some by simp
    next
      case f: (Some f)
      from Cons.prems have "rule_ok r" by simp
      then obtain ex where ex: "f m = Inr ex" "js ''type'' \<notin> fst ` set ex"
        using Some f unfolding rule_ok_def by fastforce
      then have "get (assign [(js ''type'', Str (type r))] ex) (js ''type'') = Str (type r)"
        by (simp add: get_assign)
      then show ?thesis using Some f ex(1) by simp
    qed
  qed
qed

lemma parse_result:
  "\<exists>c. parse t = Inr c \<and>
     (case find (\<lambda>r. match (trim t) (pattern r) \<noteq> None) patterns of
        None \<Rightarrow> c = [(js ''type'', Str (js ''unknown'')), (js ''input'', Str (trim t))]
      | Some r \<Rightarrow> get c (js ''type'') = Str (type r))"
  unfolding parse_def using parse_rules_result[OF patterns_ok] .

lemma trim_whitespace: "list_all isWhiteSpace t \<Longrightarrow> trim t = []"
proof -
  assume "list_all isWhiteSpace t"
  then have d: "dropWhile isWhiteSpace t = []" by (simp add: dropWhile_eq_Nil_conv list_all_iff)
  show ?thesis unfolding trim_def d by simp
qed




















lemma patterns_kinds:
  "\<forall>r\<in>set patterns.
     type r \<in> js ` set [''read_file'', ''write_file'', ''edit_file'', ''list_directory'',
        ''search_files'', ''create_directory'', ''git_status'', ''git_diff'', ''git_log'',
        ''git_add'', ''git_commit'', ''git_branch_info'', ''analyze_project'',
        ''explain_codebase'', ''get_project_structure'', ''find_definition'',
        ''find_references'', ''connect_server'', ''list_servers'', ''list_tools'', ''query''] \<and>
     getCommandCategory (Str (type r)) \<in> js ` set [''file_operations'', ''git_operations'',
        ''codebase_analysis'', ''server_management'', ''queries'']"
  by (simp add: patterns_def getCommandCategory_def categories_def js_eq_iff)

lemma find_in_set: "find P xs = Some x \<Longrightarrow> x \<in> set xs"
  by (induction xs) (auto split: if_splits)

lemma recognized: "map fst dispatch_table =
    map js [''server_connected'', ''server_disconnected'', ''tools_list'', ''servers_list'',
            ''query_response'', ''thinking'', ''status'', ''error'']"
  by (simp add: dispatch_table_def)

lemma find_dispatch_None:
  "ty \<notin> Str ` fst ` set tbl \<Longrightarrow> find (\<lambda>(t, name, handler). ty = Str t) tbl = None"
  by (induction tbl) auto

lemma handleMessage_unrecognized:
  assumes "destructure message = Inr (ty, data)" "ty \<notin> Str ` fst ` set dispatch_table"
  shows "handleMessage render message =
           (Inr (), [Console ''Unknown message type:'' [ty], Emit (js ''message'') message])"
  using assms find_dispatch_None[OF assms(2)] by (simp add: handleMessage_def)

lemma get_absent: "k \<notin> fst ` set ps \<Longrightarrow> get ps k = Undefined"
  by (induction ps) auto

lemma get_in_set: "get ps k = v \<Longrightarrow> v \<noteq> Undefined \<Longrightarrow> (k, v) \<in> set ps"
  by (induction ps) (auto split: if_splits)

lemma map_filter_id:
  assumes "map f (filter P xs) = xs"
  shows "\<forall>x\<in>set xs. P x \<and> f x = x"
proof -
  have len: "length (filter P xs) = length xs"
    using arg_cong[OF assms, of length] by simp
  have all: "\<forall>x\<in>set xs. P x"
  proof (rule ccontr)
    assume "\<not> (\<forall>x\<in>set xs. P x)"
    then obtain x where "x \<in> set xs" "\<not> P x" by blast
    then have "length (filter P xs) < length xs" by (rule length_filter_less)
    then show False using len by simp
  qed
  then have "filter P xs = xs" by simp
  then have "map f xs = map id xs" using assms by simp
  then have "\<forall>x\<in>set xs. f x = id x" by (simp only: map_eq_conv)
  then show ?thesis using all by simp
qed

lemma is_json_Obj:
  "is_json (Obj ps) \<longleftrightarrow> (\<forall>(k, v)\<in>set ps. v \<noteq> Undefined \<and> is_json v)"
proof
  assume "is_json (Obj ps)"
  then have "map (\<lambda>(k, v). (k, json_clean v)) (filter (\<lambda>(k, v). v \<noteq> Undefined) ps) = ps"
    by (simp add: is_json_def)
  from map_filter_id[OF this] show "\<forall>(k, v)\<in>set ps. v \<noteq> Undefined \<and> is_json v"
    by (auto simp: is_json_def)
next
  assume a: "\<forall>(k, v)\<in>set ps. v \<noteq> Undefined \<and> is_json v"
  then have "filter (\<lambda>(k, v). v \<noteq> Undefined) ps = ps" by (auto simp: filter_id_conv)
  moreover have "map (\<lambda>(k, v). (k, json_clean v)) ps = ps"
    using a by (intro map_idI) (auto simp: is_json_def)
  ultimately show "is_json (Obj ps)" by (simp add: is_json_def)
qed

lemma is_json_Arr:
  "is_json (Arr xs) \<longleftrightarrow> (\<forall>v\<in>set xs. v \<noteq> Undefined \<and> is_json v)"
proof
  assume "is_json (Arr xs)"
  then have m: "map (\<lambda>v. if v = Undefined then Null else json_clean v) xs = xs"
    by (simp add: is_json_def)
  show "\<forall>v\<in>set xs. v \<noteq> Undefined \<and> is_json v"
  proof
    fix v assume "v \<in> set xs"
    moreover have "map (\<lambda>v. if v = Undefined then Null else json_clean v) xs = map id xs"
      using m by simp
    ultimately have "(if v = Undefined then Null else json_clean v) = id v"
      by (simp only: map_eq_conv)
    then show "v \<noteq> Undefined \<and> is_json v" by (auto simp: is_json_def split: if_splits)
  qed
next
  assume a: "\<forall>v\<in>set xs. v \<noteq> Undefined \<and> is_json v"
  then have "map (\<lambda>v. if v = Undefined then Null else json_clean v) xs = xs"
    by (intro map_idI) (auto simp: is_json_def)
  then show "is_json (Arr xs)" by (simp add: is_json_def)
qed

lemma set_put: "set (put k v ps) \<subseteq> insert (k, v) (set ps)"
  by (induction ps) (auto split: if_splits)

lemma is_json_put:
  assumes "is_json (Obj ps)" "v \<noteq> Undefined" "is_json v"
  shows "is_json (Obj (put k v ps))"
  using assms set_put[of k v ps] unfolding is_json_Obj by fastforce

lemma assign_timestamp: "assign entry [(js ''timestamp'', Str now)] = put (js ''timestamp'') (Str now) entry"
  by (simp add: assign_def)


























lemma appended_Nil [simp]: "appended [] = []"
  by (simp add: appended_def map_filter_simps)

lemma appended_append [simp]: "appended (xs @ ys) = appended xs @ appended ys"
  by (simp add: appended_def map_filter_def)

lemma appended_Console [simp]: "appended (Console n vs # evs) = appended evs"
  by (simp add: appended_def map_filter_simps)

lemma fst_andThen:
  "fst (andThen a b w) =
     (case a w of (evs, Some e, w') \<Rightarrow> evs | (evs, None, w') \<Rightarrow> evs @ fst (b w'))"
  by (simp add: andThen_def split: prod.splits option.splits)

lemma fst_try_catch:
  "fst (try_catch a h w) =
     (case a w of (evs, Some e, w') \<Rightarrow> evs @ fst (h e w') | (evs, None, w') \<Rightarrow> evs)"
  by (simp add: try_catch_def split: prod.splits option.splits)

lemma quiet_say [simp]: "quiet (say n vs)"
  by (simp add: quiet_def say_def)

lemma quiet_skip [simp]: "quiet skip"
  by (simp add: quiet_def skip_def)

lemma quiet_raise [simp]: "quiet (raise e)"
  by (simp add: quiet_def raise_def)

lemma quiet_andThen [simp]: "quiet a \<Longrightarrow> quiet b \<Longrightarrow> quiet (andThen a b)"
  unfolding quiet_def fst_andThen
  by (auto split: prod.splits option.splits) (metis fst_conv)+

lemma quiet_try_catch [simp]: "quiet a \<Longrightarrow> (\<And>e. quiet (h e)) \<Longrightarrow> quiet (try_catch a h)"
  unfolding quiet_def fst_try_catch
  by (auto split: prod.splits option.splits) (metis fst_conv)+

lemma quiet_client_sendCommand [simp]: "quiet (client_sendCommand c p)"
  by (simp add: quiet_def client_sendCommand_def split: prod.splits sum.splits)

lemma quiet_sendQuery [simp]: "quiet (sendQuery q)"
  by (simp add: sendQuery_def)

lemma quiet_connectServer [simp]: "quiet (connectServer a b)"
  by (simp add: connectServer_def)

lemma quiet_listServers [simp]: "quiet listServers"
  by (simp add: listServers_def)

lemma quiet_listTools [simp]: "quiet (listTools a)"
  by (simp add: listTools_def)

lemma quietD: "quiet a \<Longrightarrow> appended (fst (a w)) = []"
  by (simp add: quiet_def)

lemma quiet_showStatus [simp]: "quiet showStatus"
  unfolding quiet_def
proof
  fix w :: world
  show "appended (fst (showStatus w)) = []"
  proof (cases "connected (brain w)")
    case True
    then show ?thesis
      using quietD[of "andThen (say ''client.showStatus'' [])
             (andThen (client_sendCommand (Str (js ''get_servers'')) [])
                      (say ''System status retrieved'' []))" w]
      by (simp add: showStatus_def)
  next
    case False
    then show ?thesis
      using quietD[of "andThen (say ''client.showStatus'' [])
                         (say ''Not connected to Brain server'' [])" w]
      by (simp add: showStatus_def)
  qed
qed

lemma quiet_client_disconnect [simp]: "quiet client_disconnect"
  by (simp add: quiet_def client_disconnect_def appended_def map_filter_simps)

lemma quiet_handleFileOperation [simp]: "quiet (handleFileOperation pf op ps)"
  by (simp add: handleFileOperation_def)

lemma quiet_handleGitOperation [simp]: "quiet (handleGitOperation pf op ps)"
  by (simp add: handleGitOperation_def)

lemma quiet_handleCodebaseOperation [simp]: "quiet (handleCodebaseOperation pf op ps)"
  by (simp add: handleCodebaseOperation_def)

lemma quiet_handleDevelopmentQuery [simp]: "quiet (handleDevelopmentQuery inp)"
  by (simp add: handleDevelopmentQuery_def)

lemma quiet_handleConnectServer [simp]: "quiet (handleConnectServer a b)"
  by (simp add: handleConnectServer_def)

lemma quiet_handleListTools [simp]: "quiet (handleListTools a)"
  by (simp add: handleListTools_def)

lemma quiet_showHelp [simp]: "quiet showHelp"
  by (simp add: showHelp_def)

lemma quiet_console_clear [simp]: "quiet console_clear"
  by (simp add: console_clear_def)

lemma quiet_showSessions [simp]: "quiet showSessions"
  by (simp add: showSessions_def)

lemma quiet_exit_call [simp]:
  "quiet (\<lambda>w'. ([Call ''process.exit'' [Num 0]], None, w'\<lparr>isRunning := False\<rparr>))"
  by (simp add: quiet_def appended_def map_filter_simps)

lemma quiet_handleExit [simp]: "quiet (handleExit pf)"
  unfolding quiet_def
proof
  fix w :: world
  have "quiet (if currentSessionId w \<noteq> [] then
          (case read_prop (getHistory pf (storage w) (currentSessionId w)) (js ''length'') of
             Inl e \<Rightarrow> raise e
           | Inr n \<Rightarrow>
               (case greater_than_zero (Number_toString pf) (StringToNumber pf) n of
                  Inl e \<Rightarrow> raise e
                | Inr b \<Rightarrow> if b then say ''Session saved'' [n] else skip))
        else skip)"
    by (simp split: sum.splits)
  then have "quiet (andThen (if currentSessionId w \<noteq> [] then
          (case read_prop (getHistory pf (storage w) (currentSessionId w)) (js ''length'') of
             Inl e \<Rightarrow> raise e
           | Inr n \<Rightarrow>
               (case greater_than_zero (Number_toString pf) (StringToNumber pf) n of
                  Inl e \<Rightarrow> raise e
                | Inr b \<Rightarrow> if b then say ''Session saved'' [n] else skip))
        else skip)
       (andThen (say ''Goodbye!'' [])
          (andThen client_disconnect
             (\<lambda>w'. ([Call ''process.exit'' [Num 0]], None, w'\<lparr>isRunning := False\<rparr>)))))"
    by (intro quiet_andThen) simp_all
  then show "appended (fst (handleExit pf w)) = []"
    unfolding handleExit_def by (rule quietD)
qed

lemma quiet_showHistory [simp]: "quiet (showHistory pf)"
  unfolding quiet_def
proof
  fix w :: world
  define history where "history = getHistory pf (storage w) (currentSessionId w)"
  have a: "appended (fst (andThen (say ''Conversation History:'' []) (raise TypeError) w)) = []"
    by (rule quietD) simp
  have b: "appended (fst (say n vs w)) = []" for n vs
    by (rule quietD) simp
  have c: "appended (fst (raise e w)) = []" for e
    by (rule quietD) simp
  show "appended (fst (showHistory pf w)) = []"
  proof (cases "read_prop history (js ''length'')")
    case (Inl e)
    then show ?thesis using c by (simp add: showHistory_def history_def)
  next
    case (Inr n)
    show ?thesis
    proof (cases "n = Num 0")
      case True
      then show ?thesis using Inr b by (simp add: showHistory_def history_def)
    next
      case False
      then show ?thesis using Inr a b
        by (cases history) (simp_all add: showHistory_def history_def[symmetric])
    qed
  qed
qed

lemma saveSession_events:
  "saveSession pf disk session = Inr (disk', evs) \<Longrightarrow> appended evs = []"
  by (auto simp: saveSession_def split: sum.splits if_splits)

lemma addToHistory_events:
  assumes "addToHistory pf disk now sid entry = Inr (disk', evs)"
  shows "appended evs = []"
proof (cases "truthy (loadSession pf disk sid)")
  case False
  then show ?thesis using assms by (simp add: addToHistory_def)
next
  case True
  then obtain session' where "saveSession pf disk session' = Inr (disk', evs)"
    using assms by (auto simp: addToHistory_def Let_def split: jsval.splits)
  then show ?thesis by (rule saveSession_events)
qed

lemma appended_call:
  "appended (Call ''sessionManager.addToHistory'' [sid, Obj entry] # evs) = entry # appended evs"
  by (simp add: appended_def map_filter_simps)

lemma appended_repl_addToHistory:
  "appended (fst (repl_addToHistory pf entry w)) = [entry]"
proof (cases "addToHistory pf (storage w) (clock w (ticks w)) (currentSessionId w) entry")
  case (Inl e)
  then show ?thesis by (simp add: repl_addToHistory_def appended_call)
next
  case (Inr r)
  obtain disk' evs where r: "r = (disk', evs)" by (cases r)
  then show ?thesis using Inr addToHistory_events[of pf _ _ _ entry disk' evs]
    by (simp add: repl_addToHistory_def appended_call)
qed

lemma appended_andThen:
  "appended (fst (andThen a b w)) =
     appended (fst (a w)) @
     (case fst (snd (a w)) of Some e \<Rightarrow> [] | None \<Rightarrow> appended (fst (b (snd (snd (a w))))))"
  by (simp add: andThen_def split: prod.splits option.splits)

lemma appended_try_catch:
  "appended (fst (try_catch a h w)) =
     appended (fst (a w)) @
     (case fst (snd (a w)) of Some e \<Rightarrow> appended (fst (h e (snd (snd (a w))))) | None \<Rightarrow> [])"
  by (simp add: try_catch_def split: prod.splits option.splits)

lemma appended_handleQuery:
  "appended (fst (handleQuery pf q w)) = [[(js ''type'', Str (js ''query'')), (js ''content'', q)]]"
  unfolding handleQuery_def appended_andThen appended_repl_addToHistory
  by (simp add: quietD split: option.splits)

lemma types_handleQuery: "entry_types (fst (handleQuery pf q w)) = [Str (js ''query'')]"
  by (simp add: entry_types_def appended_handleQuery)

lemma types_quiet: "quiet a \<Longrightarrow> entry_types (fst (a w)) = []"
  by (simp add: entry_types_def quietD)

lemma types_dispatch:
  "entry_types (fst (dispatch pf inp command w)) = [] \<or>
   entry_types (fst (dispatch pf inp command w)) = [Str (js ''query'')]"
  unfolding dispatch_def Let_def
  by (simp add: types_handleQuery types_quiet)

lemma types_after:
  "entry_types (fst ((if toLowerCase inp = js ''exit'' \<or> toLowerCase inp = js ''quit'' then handleExit pf
        else if toLowerCase inp = js ''help'' then showHelp
        else if toLowerCase inp = js ''status'' then showStatus
        else if toLowerCase inp = js ''clear'' then console_clear
        else if toLowerCase inp = js ''history'' then showHistory pf
        else if startsWith (toLowerCase inp) (js ''sessions'') then showSessions
        else (case parse inp of
                Inl e \<Rightarrow> raise e
              | Inr command \<Rightarrow> dispatch pf inp command)) w)) \<in> {[], [Str (js ''query'')]}"
  using types_dispatch[of pf inp _ w]
  by (auto simp: types_quiet split: sum.splits)

lemma events_repl_addToHistory:
  "\<exists>evs. fst (repl_addToHistory pf entry w) =
           Call ''sessionManager.addToHistory'' [Str (currentSessionId w), Obj entry] # evs \<and>
         appended evs = []"
proof (cases "addToHistory pf (storage w) (clock w (ticks w)) (currentSessionId w) entry")
  case (Inl e)
  then show ?thesis by (simp add: repl_addToHistory_def)
next
  case (Inr r)
  obtain disk' evs where r: "r = (disk', evs)" by (cases r)
  then show ?thesis using Inr addToHistory_events[of pf _ _ _ entry disk' evs]
    by (simp add: repl_addToHistory_def)
qed

lemma events_processInput:
  "\<exists>rest. fst (processInput pf inp w) =
      Call ''sessionManager.addToHistory''
        [Str (currentSessionId w),
         Obj [(js ''type'', Str (js ''user'')), (js ''content'', Str inp)]] # rest \<and>
      entry_types rest \<in> {[], [Str (js ''query'')]}"
proof -
  define first where
    "first = repl_addToHistory pf [(js ''type'', Str (js ''user'')), (js ''content'', Str inp)]"
  define after where
    "after = (if toLowerCase inp = js ''exit'' \<or> toLowerCase inp = js ''quit'' then handleExit pf
        else if toLowerCase inp = js ''help'' then showHelp
        else if toLowerCase inp = js ''status'' then showStatus
        else if toLowerCase inp = js ''clear'' then console_clear
        else if toLowerCase inp = js ''history'' then showHistory pf
        else if startsWith (toLowerCase inp) (js ''sessions'') then showSessions
        else (case parse inp of
                Inl e \<Rightarrow> raise e
              | Inr command \<Rightarrow> dispatch pf inp command))"
  have p: "processInput pf inp = andThen first after"
    by (simp add: processInput_def first_def after_def)
  obtain evs where evs: "fst (first w) =
      Call ''sessionManager.addToHistory''
        [Str (currentSessionId w),
         Obj [(js ''type'', Str (js ''user'')), (js ''content'', Str inp)]] # evs"
      "appended evs = []"
    using events_repl_addToHistory[of pf _ w] unfolding first_def by blast
  have t: "entry_types (fst (after w')) \<in> {[], [Str (js ''query'')]}" for w'
    unfolding after_def by (rule types_after)
  obtain ev0 r w' where fw: "first w = (ev0, r, w')" by (cases "first w")
  then have ev0: "ev0 = Call ''sessionManager.addToHistory''
        [Str (currentSessionId w),
         Obj [(js ''type'', Str (js ''user'')), (js ''content'', Str inp)]] # evs"
    using evs(1) by simp
  show ?thesis
  proof (cases r)
    case None
    then have "fst (processInput pf inp w) = ev0 @ fst (after w')"
      using fw unfolding p fst_andThen by simp
    then have "fst (processInput pf inp w) =
        Call ''sessionManager.addToHistory''
          [Str (currentSessionId w),
           Obj [(js ''type'', Str (js ''user'')), (js ''content'', Str inp)]] #
        (evs @ fst (after w'))"
      using ev0 by simp
    moreover have "entry_types (evs @ fst (after w')) \<in> {[], [Str (js ''query'')]}"
      using evs(2) t[of w'] by (simp add: entry_types_def)
    ultimately show ?thesis by blast
  next
    case (Some e)
    then have "fst (processInput pf inp w) = ev0"
      using fw unfolding p fst_andThen by simp
    then show ?thesis using ev0 evs(2) by (simp add: entry_types_def)
  qed
qed

lemma json_clean_Undefined: "json_clean v = Undefined \<longleftrightarrow> v = Undefined"
  by (cases v) simp_all

lemma json_clean_idem: "json_clean (json_clean v) = json_clean v"
proof (induction v)
  case (Arr xs)
  have "(if (if v = Undefined then Null else json_clean v) = Undefined then Null
         else json_clean (if v = Undefined then Null else json_clean v)) =
        (if v = Undefined then Null else json_clean v)" if "v \<in> set xs" for v
    using Arr[OF that] by (simp add: json_clean_Undefined)
  then show ?case by simp
next
  case (Obj ps)
  have i: "json_clean (json_clean v) = json_clean v" if "(k, v) \<in> set ps" for k v
    using Obj[OF that] by simp
  have "filter (\<lambda>(k, v). v \<noteq> Undefined)
          (map (\<lambda>(k, v). (k, json_clean v)) (filter (\<lambda>(k, v). v \<noteq> Undefined) ps)) =
        map (\<lambda>(k, v). (k, json_clean v)) (filter (\<lambda>(k, v). v \<noteq> Undefined) ps)"
    by (auto simp: filter_id_conv json_clean_Undefined)
  moreover have "map (\<lambda>(k, v). (k, json_clean v))
          (map (\<lambda>(k, v). (k, json_clean v)) (filter (\<lambda>(k, v). v \<noteq> Undefined) ps)) =
        map (\<lambda>(k, v). (k, json_clean v)) (filter (\<lambda>(k, v). v \<noteq> Undefined) ps)"
    using i by auto
  ultimately show ?case by simp
qed simp_all

lemma is_json_clean: "is_json (json_clean v)"
  by (simp add: is_json_def json_clean_idem)

lemma clean_id:
  assumes "\<forall>(k, v)\<in>set ps. v \<noteq> Undefined \<and> json_clean v = v"
  shows "map (\<lambda>(k, v). (k, json_clean v)) (filter (\<lambda>(k, v). v \<noteq> Undefined) ps) = ps"
proof -
  have "filter (\<lambda>(k, v). v \<noteq> Undefined) ps = ps"
    using assms by (auto simp: filter_id_conv)
  moreover have "map (\<lambda>(k, v). (k, json_clean v)) ps = ps"
    using assms by (intro map_idI) auto
  ultimately show ?thesis by simp
qed

lemma clean_put:
  assumes "\<forall>(k, v)\<in>set ps. v \<noteq> Undefined \<and> json_clean v = v" "v \<noteq> Undefined"
  shows "map (\<lambda>(k, v). (k, json_clean v)) (filter (\<lambda>(k, v). v \<noteq> Undefined) (put k v ps)) =
         put k (json_clean v) ps"
  using assms(1)
proof (induction ps)
  case Nil
  then show ?case using assms(2) by simp
next
  case (Cons p ps)
  obtain k' v' where p: "p = (k', v')" by (cases p)
  have v': "v' \<noteq> Undefined" "json_clean v' = v'" using Cons.prems p by simp_all
  have tl: "\<forall>(k, v)\<in>set ps. v \<noteq> Undefined \<and> json_clean v = v" using Cons.prems by simp
  show ?case
  proof (cases "k' = k")
    case True
    then show ?thesis using p clean_id[OF tl] assms(2) by simp
  next
    case False
    then show ?thesis using p v' Cons.IH[OF tl] by simp
  qed
qed

lemma json_clean_put:
  assumes "is_json (Obj ps)" "v \<noteq> Undefined"
  shows "json_clean (Obj (put k v ps)) = Obj (put k (json_clean v) ps)"
proof -
  have "\<forall>(k, v)\<in>set ps. v \<noteq> Undefined \<and> json_clean v = v"
    using assms(1) unfolding is_json_Obj by (auto simp: is_json_def)
  then show ?thesis using clean_put[OF _ assms(2)] by simp
qed

lemma json_clean_snoc:
  assumes "is_json (Arr h)" "e \<noteq> Undefined"
  shows "json_clean (Arr (h @ [e])) = Arr (h @ [json_clean e])"
  using assms by (simp add: is_json_def)

lemma addToHistory_appends:
  assumes rec: "files disk (sessionFile pf sid) = Some (Json (Obj ps))"
    and hist: "get ps (js ''history'') = Arr h"
    and ident: "to_string (Number_toString pf) (get ps (js ''id'')) = Inr sid"
    and data: "is_json (Obj ps)"
    and writable: "\<not> readonly disk (sessionFile pf sid)"
  shows "addToHistory pf disk now sid entry =
           Inr (disk\<lparr>files := (files disk)(sessionFile pf sid \<mapsto>
                  Json (Obj (put (js ''history'')
                     (Arr (h @ [json_clean (Obj (put (js ''timestamp'') (Str now) entry))])) ps)))\<rparr>,
                [])"
proof -
  define e' where "e' = Obj (put (js ''timestamp'') (Str now) entry)"
  define session' where "session' = Obj (put (js ''history'') (Arr (h @ [e'])) ps)"
  have load: "loadSession pf disk sid = Obj ps" using rec by (simp add: loadSession_def)
  have "(js ''history'', Arr h) \<in> set ps" using hist by (intro get_in_set) simp_all
  then have h_json: "is_json (Arr h)" using data unfolding is_json_Obj by fastforce
  have "json_clean (Arr (h @ [e'])) = Arr (h @ [json_clean e'])"
    using h_json by (intro json_clean_snoc) (simp_all add: e'_def)
  then have clean: "json_clean session' =
      Obj (put (js ''history'') (Arr (h @ [json_clean e'])) ps)"
    unfolding session'_def using json_clean_put[OF data, of "Arr (h @ [e'])" "js ''history''"]
    by simp
  have id': "read_prop session' (js ''id'') = Inr (get ps (js ''id''))"
    by (simp add: session'_def get_put js_eq_iff)
  have "saveSession pf disk session' =
      Inr (disk\<lparr>files := (files disk)(sessionFile pf sid \<mapsto>
                  Json (Obj (put (js ''history'') (Arr (h @ [json_clean e'])) ps)))\<rparr>, [])"
    using id' ident writable clean by (simp add: saveSession_def)
  then show ?thesis
    using load hist by (simp add: addToHistory_def assign_timestamp session'_def e'_def)
qed

lemma getHistory_record: "session_record pf disk sid h \<Longrightarrow> getHistory pf disk sid = Arr h"
  by (auto simp: session_record_def getHistory_def loadSession_def
      split: option.splits file_content.splits jsval.splits)

lemma addToHistory_record:
  assumes "session_record pf disk sid h"
  shows "\<exists>disk'. addToHistory pf disk now sid entry = Inr (disk', []) \<and>
           session_record pf disk' sid
             (h @ [json_clean (Obj (put (js ''timestamp'') (Str now) entry))])"
proof -
  obtain ps where rec: "files disk (sessionFile pf sid) = Some (Json (Obj ps))"
    and hist: "get ps (js ''history'') = Arr h"
    and ident: "to_string (Number_toString pf) (get ps (js ''id'')) = Inr sid"
    and data: "is_json (Obj ps)"
    and writable: "\<not> readonly disk (sessionFile pf sid)"
    using assms
    by (auto simp: session_record_def split: option.splits file_content.splits jsval.splits)
  define e' where "e' = json_clean (Obj (put (js ''timestamp'') (Str now) entry))"
  define disk' where "disk' = disk\<lparr>files := (files disk)(sessionFile pf sid \<mapsto>
                  Json (Obj (put (js ''history'') (Arr (h @ [e'])) ps)))\<rparr>"
  have add: "addToHistory pf disk now sid entry = Inr (disk', [])"
    unfolding disk'_def e'_def by (rule addToHistory_appends[OF rec hist ident data writable])
  have "(js ''history'', Arr h) \<in> set ps" using hist by (intro get_in_set) simp_all
  then have h_json: "is_json (Arr h)" using data unfolding is_json_Obj by fastforce
  have "e' \<noteq> Undefined" by (simp add: e'_def)
  moreover have "is_json e'" unfolding e'_def by (rule is_json_clean)
  ultimately have "is_json (Arr (h @ [e']))" using h_json unfolding is_json_Arr by auto
  then have "is_json (Obj (put (js ''history'') (Arr (h @ [e'])) ps))"
    using data by (intro is_json_put) simp_all
  then have "session_record pf disk' sid (h @ [e'])"
    using ident writable by (simp add: session_record_def disk'_def get_put js_eq_iff)
  then show ?thesis using add unfolding e'_def by blast
qed

lemma final_andThen:
  "final (andThen a b) w = (case fst (snd (a w)) of Some e \<Rightarrow> final a w | None \<Rightarrow> final b (final a w))"
  by (simp add: final_def andThen_def split: prod.splits option.splits)

lemma final_try_catch:
  "final (try_catch a h) w =
     (case fst (snd (a w)) of Some e \<Rightarrow> final (h e) (final a w) | None \<Rightarrow> final a w)"
  by (simp add: final_def try_catch_def split: prod.splits option.splits)

lemma keeps_say [simp]: "keeps (say n vs)"
  by (simp add: keeps_def final_def say_def)

lemma keeps_skip [simp]: "keeps skip"
  by (simp add: keeps_def final_def skip_def)

lemma keeps_raise [simp]: "keeps (raise e)"
  by (simp add: keeps_def final_def raise_def)

lemma keeps_andThen [simp]: "keeps a \<Longrightarrow> keeps b \<Longrightarrow> keeps (andThen a b)"
  unfolding keeps_def final_andThen by (simp split: option.splits)

lemma keeps_try_catch [simp]: "keeps a \<Longrightarrow> (\<And>e. keeps (h e)) \<Longrightarrow> keeps (try_catch a h)"
  unfolding keeps_def final_try_catch by (simp split: option.splits)

lemma keepsD:
  "keeps a \<Longrightarrow> storage (final a w) = storage w \<and> currentSessionId (final a w) = currentSessionId w \<and>
     clock (final a w) = clock w \<and> ticks (final a w) = ticks w"
  by (simp add: keeps_def)

lemma keepsI:
  "(\<And>w. storage (final a w) = storage w \<and> currentSessionId (final a w) = currentSessionId w \<and>
     clock (final a w) = clock w \<and> ticks (final a w) = ticks w) \<Longrightarrow> keeps a"
  by (simp add: keeps_def)

lemma keeps_client_sendCommand [simp]: "keeps (client_sendCommand c p)"
  by (simp add: keeps_def final_def client_sendCommand_def split: prod.splits sum.splits)

lemma keeps_sendQuery [simp]: "keeps (sendQuery q)"
  by (simp add: sendQuery_def)

lemma keeps_connectServer [simp]: "keeps (connectServer a b)"
  by (simp add: connectServer_def)

lemma keeps_listServers [simp]: "keeps listServers"
  by (simp add: listServers_def)

lemma keeps_listTools [simp]: "keeps (listTools a)"
  by (simp add: listTools_def)

lemma keeps_showStatus [simp]: "keeps showStatus"
proof (rule keepsI)
  fix w :: world
  have a: "final showStatus w =
      final (if connected (brain w)
             then andThen (say ''client.showStatus'' [])
                    (andThen (client_sendCommand (Str (js ''get_servers'')) [])
                             (say ''System status retrieved'' []))
             else andThen (say ''client.showStatus'' []) (say ''Not connected to Brain server'' [])) w"
    by (simp add: final_def showStatus_def)
  show "storage (final showStatus w) = storage w \<and>
        currentSessionId (final showStatus w) = currentSessionId w \<and>
        clock (final showStatus w) = clock w \<and> ticks (final showStatus w) = ticks w"
    unfolding a by (rule keepsD) simp
qed

lemma keeps_client_disconnect [simp]: "keeps client_disconnect"
  by (simp add: keeps_def final_def client_disconnect_def)

lemma keeps_handleFileOperation [simp]: "keeps (handleFileOperation pf op ps)"
  by (simp add: handleFileOperation_def)

lemma keeps_handleGitOperation [simp]: "keeps (handleGitOperation pf op ps)"
  by (simp add: handleGitOperation_def)

lemma keeps_handleCodebaseOperation [simp]: "keeps (handleCodebaseOperation pf op ps)"
  by (simp add: handleCodebaseOperation_def)

lemma keeps_handleDevelopmentQuery [simp]: "keeps (handleDevelopmentQuery inp)"
  by (simp add: handleDevelopmentQuery_def)

lemma keeps_handleConnectServer [simp]: "keeps (handleConnectServer a b)"
  by (simp add: handleConnectServer_def)

lemma keeps_handleListTools [simp]: "keeps (handleListTools a)"
  by (simp add: handleListTools_def)

lemma keeps_showHelp [simp]: "keeps showHelp"
  by (simp add: showHelp_def)

lemma keeps_console_clear [simp]: "keeps console_clear"
  by (simp add: console_clear_def)

lemma keeps_showSessions [simp]: "keeps showSessions"
  by (simp add: showSessions_def)

lemma keeps_exit_call [simp]:
  "keeps (\<lambda>w'. ([Call ''process.exit'' [Num 0]], None, w'\<lparr>isRunning := False\<rparr>))"
  by (simp add: keeps_def final_def)

lemma keeps_handleExit [simp]: "keeps (handleExit pf)"
proof (rule keepsI)
  fix w :: world
  define a where "a = andThen (if currentSessionId w \<noteq> [] then
          (case read_prop (getHistory pf (storage w) (currentSessionId w)) (js ''length'') of
             Inl e \<Rightarrow> raise e
           | Inr n \<Rightarrow>
               (case greater_than_zero (Number_toString pf) (StringToNumber pf) n of
                  Inl e \<Rightarrow> raise e
                | Inr b \<Rightarrow> if b then say ''Session saved'' [n] else skip))
        else skip)
       (andThen (say ''Goodbye!'' [])
          (andThen client_disconnect
             (\<lambda>w'. ([Call ''process.exit'' [Num 0]], None, w'\<lparr>isRunning := False\<rparr>))))"
  have "keeps (if currentSessionId w \<noteq> [] then
          (case read_prop (getHistory pf (storage w) (currentSessionId w)) (js ''length'') of
             Inl e \<Rightarrow> raise e
           | Inr n \<Rightarrow>
               (case greater_than_zero (Number_toString pf) (StringToNumber pf) n of
                  Inl e \<Rightarrow> raise e
                | Inr b \<Rightarrow> if b then say ''Session saved'' [n] else skip))
        else skip)"
    by (simp split: sum.splits)
  then have k: "keeps a" unfolding a_def by (intro keeps_andThen) simp_all
  have "final (handleExit pf) w = final a w" by (simp add: final_def handleExit_def a_def)
  then show "storage (final (handleExit pf) w) = storage w \<and>
        currentSessionId (final (handleExit pf) w) = currentSessionId w \<and>
        clock (final (handleExit pf) w) = clock w \<and> ticks (final (handleExit pf) w) = ticks w"
    using keepsD[OF k, of w] by simp
qed

lemma keeps_showHistory [simp]: "keeps (showHistory pf)"
proof (rule keepsI)
  fix w :: world
  define history where "history = getHistory pf (storage w) (currentSessionId w)"
  have a: "final (andThen (say ''Conversation History:'' []) (raise TypeError)) w = w"
    by (simp add: final_def andThen_def say_def raise_def)
  have b: "final (say n vs) w = w" for n vs by (simp add: final_def say_def)
  have c: "final (raise e) w = w" for e by (simp add: final_def raise_def)
  have "final (showHistory pf) w = w"
  proof (cases "read_prop history (js ''length'')")
    case (Inl e)
    then show ?thesis using c by (simp add: final_def showHistory_def history_def)
  next
    case (Inr n)
    show ?thesis
    proof (cases "n = Num 0")
      case True
      then show ?thesis using Inr b by (simp add: final_def showHistory_def history_def)
    next
      case False
      then show ?thesis using Inr a b
        by (cases history) (simp_all add: final_def showHistory_def history_def[symmetric])
    qed
  qed
  then show "storage (final (showHistory pf) w) = storage w \<and>
        currentSessionId (final (showHistory pf) w) = currentSessionId w \<and>
        clock (final (showHistory pf) w) = clock w \<and> ticks (final (showHistory pf) w) = ticks w"
    by simp
qed

lemma repl_addToHistory_record:
  assumes "session_record pf (storage w) (currentSessionId w) h"
  shows "\<exists>disk'. repl_addToHistory pf entry w =
           ([Call ''sessionManager.addToHistory'' [Str (currentSessionId w), Obj entry]], None,
            w\<lparr>storage := disk', ticks := Suc (ticks w)\<rparr>) \<and>
           session_record pf disk' (currentSessionId w)
             (h @ [json_clean (Obj (put (js ''timestamp'') (Str (clock w (ticks w))) entry))])"
proof -
  obtain disk' where
    a: "addToHistory pf (storage w) (clock w (ticks w)) (currentSessionId w) entry = Inr (disk', [])"
    and r: "session_record pf disk' (currentSessionId w)
       (h @ [json_clean (Obj (put (js ''timestamp'') (Str (clock w (ticks w))) entry))])"
    using addToHistory_record[OF assms] by blast
  have "repl_addToHistory pf entry w =
           ([Call ''sessionManager.addToHistory'' [Str (currentSessionId w), Obj entry]], None,
            w\<lparr>storage := disk', ticks := Suc (ticks w)\<rparr>)"
    using a by (simp add: repl_addToHistory_def)
  then show ?thesis using r by blast
qed

lemma handleQuery_record:
  assumes "session_record pf (storage w) (currentSessionId w) h"
  shows "session_record pf (storage (final (handleQuery pf q) w)) (currentSessionId w)
           (h @ [json_clean (Obj [(js ''type'', Str (js ''query'')), (js ''content'', q),
                                  (js ''timestamp'', Str (clock w (ticks w)))])]) \<and>
         currentSessionId (final (handleQuery pf q) w) = currentSessionId w"
proof -
  let ?entry = "[(js ''type'', Str (js ''query'')), (js ''content'', q)]"
  have p: "put (js ''timestamp'') (Str (clock w (ticks w))) ?entry =
      [(js ''type'', Str (js ''query'')), (js ''content'', q),
       (js ''timestamp'', Str (clock w (ticks w)))]"
    by (simp add: js_eq_iff)
  obtain disk' where d: "repl_addToHistory pf ?entry w =
           ([Call ''sessionManager.addToHistory'' [Str (currentSessionId w), Obj ?entry]], None,
            w\<lparr>storage := disk', ticks := Suc (ticks w)\<rparr>)"
     "session_record pf disk' (currentSessionId w)
        (h @ [json_clean (Obj (put (js ''timestamp'') (Str (clock w (ticks w))) ?entry))])"
    using repl_addToHistory_record[OF assms, of ?entry] by blast
  have f: "final (handleQuery pf q) w = final (sendQuery q) (w\<lparr>storage := disk', ticks := Suc (ticks w)\<rparr>)"
    unfolding handleQuery_def final_andThen using d(1) by (simp add: final_def)
  show ?thesis
    unfolding f using keepsD[OF keeps_sendQuery, of q "w\<lparr>storage := disk', ticks := Suc (ticks w)\<rparr>"] d(2)
    unfolding p by simp
qed

lemma dispatch_cases:
  "keeps (dispatch pf inp command) \<or> (\<exists>q. dispatch pf inp command = handleQuery pf q)"
  unfolding dispatch_def Let_def by auto

lemma after_cases:
  "keeps (if toLowerCase inp = js ''exit'' \<or> toLowerCase inp = js ''quit'' then handleExit pf
        else if toLowerCase inp = js ''help'' then showHelp
        else if toLowerCase inp = js ''status'' then showStatus
        else if toLowerCase inp = js ''clear'' then console_clear
        else if toLowerCase inp = js ''history'' then showHistory pf
        else if startsWith (toLowerCase inp) (js ''sessions'') then showSessions
        else (case parse inp of
                Inl e \<Rightarrow> raise e
              | Inr command \<Rightarrow> dispatch pf inp command)) \<or>
   (\<exists>q. (if toLowerCase inp = js ''exit'' \<or> toLowerCase inp = js ''quit'' then handleExit pf
        else if toLowerCase inp = js ''help'' then showHelp
        else if toLowerCase inp = js ''status'' then showStatus
        else if toLowerCase inp = js ''clear'' then console_clear
        else if toLowerCase inp = js ''history'' then showHistory pf
        else if startsWith (toLowerCase inp) (js ''sessions'') then showSessions
        else (case parse inp of
                Inl e \<Rightarrow> raise e
              | Inr command \<Rightarrow> dispatch pf inp command)) = handleQuery pf q)"
  using dispatch_cases[of pf inp] by (auto split: sum.splits)

lemma processInput_record:
  assumes "session_record pf (storage w) (currentSessionId w) h"
  shows "\<exists>more. session_record pf (storage (final (processInput pf inp) w)) (currentSessionId w)
           (h @ Obj [(js ''type'', Str (js ''user'')), (js ''content'', Str inp),
                     (js ''timestamp'', Str (clock w (ticks w)))] # more) \<and>
         (more = [] \<or>
          (\<exists>q. more = [json_clean (Obj [(js ''type'', Str (js ''query'')), (js ''content'', q),
                                         (js ''timestamp'', Str (clock w (Suc (ticks w))))])]))"
proof -
  let ?entry = "[(js ''type'', Str (js ''user'')), (js ''content'', Str inp)]"
  let ?u = "Obj [(js ''type'', Str (js ''user'')), (js ''content'', Str inp),
                 (js ''timestamp'', Str (clock w (ticks w)))]"
  define first where "first = repl_addToHistory pf ?entry"
  define after where
    "after = (if toLowerCase inp = js ''exit'' \<or> toLowerCase inp = js ''quit'' then handleExit pf
        else if toLowerCase inp = js ''help'' then showHelp
        else if toLowerCase inp = js ''status'' then showStatus
        else if toLowerCase inp = js ''clear'' then console_clear
        else if toLowerCase inp = js ''history'' then showHistory pf
        else if startsWith (toLowerCase inp) (js ''sessions'') then showSessions
        else (case parse inp of
                Inl e \<Rightarrow> raise e
              | Inr command \<Rightarrow> dispatch pf inp command))"
  have p: "processInput pf inp = andThen first after"
    by (simp add: processInput_def first_def after_def)
  have u: "json_clean (Obj (put (js ''timestamp'') (Str (clock w (ticks w))) ?entry)) = ?u"
    by (simp add: js_eq_iff)
  obtain disk' where d: "first w =
           ([Call ''sessionManager.addToHistory'' [Str (currentSessionId w), Obj ?entry]], None,
            w\<lparr>storage := disk', ticks := Suc (ticks w)\<rparr>)"
     "session_record pf disk' (currentSessionId w) (h @ [?u])"
    using repl_addToHistory_record[OF assms, of ?entry] unfolding first_def u by blast
  define w1 where "w1 = w\<lparr>storage := disk', ticks := Suc (ticks w)\<rparr>"
  have f: "final (processInput pf inp) w = final after w1"
    unfolding p final_andThen using d(1) by (simp add: final_def w1_def)
  have r1: "session_record pf (storage w1) (currentSessionId w1) (h @ [?u])"
    using d(2) by (simp add: w1_def)
  from after_cases[of inp pf] consider "keeps after" | q where "after = handleQuery pf q"
    unfolding after_def by blast
  then show ?thesis
  proof cases
    case 1
    then have "storage (final after w1) = disk'" using keepsD[of after w1] by (simp add: w1_def)
    then have "session_record pf (storage (final (processInput pf inp) w)) (currentSessionId w)
                 (h @ ?u # [])"
      using d(2) f by simp
    then show ?thesis by blast
  next
    case 2
    have "session_record pf (storage (final (handleQuery pf q) w1)) (currentSessionId w1)
            ((h @ [?u]) @ [json_clean (Obj [(js ''type'', Str (js ''query'')), (js ''content'', q),
                                            (js ''timestamp'', Str (clock w1 (ticks w1)))])])"
      using handleQuery_record[OF r1, of q] by simp
    then have "session_record pf (storage (final (processInput pf inp) w)) (currentSessionId w)
            (h @ ?u # [json_clean (Obj [(js ''type'', Str (js ''query'')), (js ''content'', q),
                                         (js ''timestamp'', Str (clock w (Suc (ticks w))))])])"
      using f 2 by (simp add: w1_def)
    then show ?thesis by blast
  qed
qed

lemma final_mainLoop_turn:
  "trim line \<noteq> [] \<Longrightarrow> final (mainLoop_turn pf line) w = final (processInput pf (trim line)) w"
  by (simp add: mainLoop_turn_def final_def try_catch_def say_def split: prod.splits option.splits)

lemma repl_handleMessage_other:
  "read_prop message (js ''type'') \<noteq> Inr (Str (js ''query_response'')) \<Longrightarrow>
     snd (snd (repl_handleMessage pf message w)) = w"
  by (auto simp: repl_handleMessage_def raise_def skip_def split: sum.splits)

lemma never_opened: "\<not> list_ex opens calls \<Longrightarrow> \<not> connected (client_after calls)"
proof (induction calls rule: rev_induct)
  case Nil
  then show ?case by (simp add: client_after_def constructor_def)
next
  case (snoc x xs)
  have "client_after (xs @ [x]) = perform (client_after xs) x"
    by (simp add: client_after_def)
  moreover have "\<not> connected (client_after xs)" using snoc by simp
  moreover have "\<not> opens x" using snoc.prems by simp
  ultimately show ?case
    by (cases x)
       (auto simp: connect_def on_error_def on_close_def disconnect_def ready_def replace_ws_def
          sendCommand_def Let_def split: option.splits if_splits)
qed

lemma find_key:
  assumes "distinct (map fst tbl)" "(t, name, handler) \<in> set tbl"
  shows "find (\<lambda>(t', name', handler'). Str t = Str t') tbl = Some (t, name, handler)"
  using assms
proof (induction tbl)
  case Nil
  then show ?case by simp
next
  case (Cons p tbl)
  obtain t' n' h' where p: "p = (t', n', h')" by (cases p)
  show ?case
  proof (cases "t' = t")
    case True
    then have "(t, name, handler) \<notin> set tbl" using Cons.prems(1) p by (auto simp: image_iff)
    then show ?thesis using Cons.prems(2) p True by simp
  next
    case False
    then show ?thesis using Cons p by simp
  qed
qed

lemma dispatch_distinct: "distinct (map fst dispatch_table)"
  by (simp add: dispatch_table_def js_eq_iff)

lemma handleMessage_recognized:
  assumes "(t, name, handler) \<in> set dispatch_table" "destructure message = Inr (Str t, data)"
  shows "handleMessage render message =
           (case handler render data of
              Inl e \<Rightarrow> (Inl e, [Invoke name data])
            | Inr u \<Rightarrow> (Inr (), [Invoke name data, Emit (js ''message'') message]))"
proof -
  have "find (\<lambda>(t', name', handler'). Str t = Str t') dispatch_table = Some (t, name, handler)"
    using find_key[OF dispatch_distinct assms(1)] .
  then show ?thesis using assms(2) by (simp add: handleMessage_def split: sum.splits)
qed

lemma destructure_total:
  "message \<noteq> Null \<Longrightarrow> message \<noteq> Undefined \<Longrightarrow> \<exists>ty data. destructure message = Inr (ty, data)"
  by (cases message) simp_all

section \<open>The claims\<close>

subsection \<open>Classifier\<close>

text \<open>
  C1. When two rules both match the trimmed input, \<open>parse\<close> returns the kind of the
  earliest rule that matches, which is declared at or before the earlier of the two. The
  bare input \<open>status\<close> is matched by the ninth rule only (the generic status rule of
  the version-control family) and gets the kind \<open>git_status\<close>.
\<close>

theorem first_matching_rule_wins:
  "(i < j \<and> j < length patterns \<and>
      match (trim t) (pattern (patterns ! i)) \<noteq> None \<and>
      match (trim t) (pattern (patterns ! j)) \<noteq> None \<longrightarrow>
      (\<exists>k c. k \<le> i \<and> match (trim t) (pattern (patterns ! k)) \<noteq> None \<and>
         (\<forall>l<k. match (trim t) (pattern (patterns ! l)) = None) \<and>
         parse t = Inr c \<and> get c (js ''type'') = Str (type (patterns ! k)))) \<and>
   parse (js ''status'') = Inr [(js ''type'', Str (js ''git_status''))] \<and>
   map (\<lambda>r. match (trim (js ''status'')) (pattern r) \<noteq> None) patterns =
     replicate 8 False @ [True] @ replicate 25 False \<and>
   type (patterns ! 8) = js ''git_status''"
proof (intro conjI impI)
  assume a: "i < j \<and> j < length patterns \<and>
      match (trim t) (pattern (patterns ! i)) \<noteq> None \<and>
      match (trim t) (pattern (patterns ! j)) \<noteq> None"
  let ?P = "\<lambda>r. match (trim t) (pattern r) \<noteq> None"
  obtain c where c: "parse t = Inr c"
    "case find ?P patterns of
       None \<Rightarrow> c = [(js ''type'', Str (js ''unknown'')), (js ''input'', Str (trim t))]
     | Some r \<Rightarrow> get c (js ''type'') = Str (type r)"
    using parse_result[of t] by blast
  have i: "i < length patterns" "?P (patterns ! i)" using a by simp_all
  then have "patterns ! i \<in> set patterns" by simp
  then have "find ?P patterns \<noteq> None" using i(2) unfolding find_None_iff by blast
  then obtain r where r: "find ?P patterns = Some r" by blast
  then obtain k where k: "k < length patterns" "?P (patterns ! k)" "r = patterns ! k"
      "\<forall>l<k. \<not> ?P (patterns ! l)"
    unfolding find_Some_iff by blast
  have "k \<le> i" using k(4) i(2) by (meson not_le_imp_less)
  moreover have "get c (js ''type'') = Str (type (patterns ! k))" using c(2) r k(3) by simp
  ultimately show "\<exists>k c. k \<le> i \<and> match (trim t) (pattern (patterns ! k)) \<noteq> None \<and>
         (\<forall>l<k. match (trim t) (pattern (patterns ! l)) = None) \<and>
         parse t = Inr c \<and> get c (js ''type'') = Str (type (patterns ! k))"
    using k(2,4) c(1) by blast
next
  show "parse (js ''status'') = Inr [(js ''type'', Str (js ''git_status''))]"
    by code_simp
next
  show "map (\<lambda>r. match (trim (js ''status'')) (pattern r) \<noteq> None) patterns =
     replicate 8 False @ [True] @ replicate 25 False"
    by code_simp
next
  show "type (patterns ! 8) = js ''git_status''"
    by (simp add: patterns_def)
qed

theorem first_matching_rule_wins_witness:
  "(0::nat) < 8 \<and> 8 < length patterns \<and>
   match (trim (js ''show status'')) (pattern (patterns ! 0)) \<noteq> None \<and>
   match (trim (js ''show status'')) (pattern (patterns ! 8)) \<noteq> None \<and>
   (\<exists>k c. k \<le> 0 \<and> parse (js ''show status'') = Inr c \<and>
      get c (js ''type'') = Str (type (patterns ! k))) \<and>
   type (patterns ! 0) = js ''read_file'' \<and> type (patterns ! 8) = js ''git_status''"
proof -
  have l: "8 < length patterns" by (simp add: patterns_def)
  have m0: "match (trim (js ''show status'')) (pattern (patterns ! 0)) \<noteq> None" by code_simp
  have m8: "match (trim (js ''show status'')) (pattern (patterns ! 8)) \<noteq> None" by code_simp
  have t: "type (patterns ! 0) = js ''read_file''" "type (patterns ! 8) = js ''git_status''"
    by (simp_all add: patterns_def)
  show ?thesis
    using first_matching_rule_wins[of 0 8 "js ''show status''"] l m0 m8 t by auto
qed

text \<open>
  C2. \<open>parse\<close> returns a command for every input and never raises. When no pattern
  matches the trimmed input, the command has kind \<open>unknown\<close> and carries the trimmed
  input; for the empty input and for input of white space only this is the empty text.
\<close>

theorem parse_total_unknown:
  "(\<exists>c. parse t = Inr c) \<and>
   ((\<forall>r\<in>set patterns. match (trim t) (pattern r) = None) \<longrightarrow>
      parse t = Inr [(js ''type'', Str (js ''unknown'')), (js ''input'', Str (trim t))]) \<and>
   (list_all isWhiteSpace t \<longrightarrow>
      parse t = Inr [(js ''type'', Str (js ''unknown'')), (js ''input'', Str [])]) \<and>
   parse [] = Inr [(js ''type'', Str (js ''unknown'')), (js ''input'', Str [])]"
proof (intro conjI impI)
  show "\<exists>c. parse t = Inr c" using parse_result[of t] by blast
next
  assume "\<forall>r\<in>set patterns. match (trim t) (pattern r) = None"
  then have "find (\<lambda>r. match (trim t) (pattern r) \<noteq> None) patterns = None"
    by (simp add: find_None_iff)
  then show "parse t = Inr [(js ''type'', Str (js ''unknown'')), (js ''input'', Str (trim t))]"
    using parse_result[of t] by auto
next
  have e: "parse_rules patterns [] = Inr [(js ''type'', Str (js ''unknown'')), (js ''input'', Str [])]"
    by code_simp
  assume "list_all isWhiteSpace t"
  then show "parse t = Inr [(js ''type'', Str (js ''unknown'')), (js ''input'', Str [])]"
    using e by (simp add: parse_def trim_whitespace)
next
  show "parse [] = Inr [(js ''type'', Str (js ''unknown'')), (js ''input'', Str [])]"
    by code_simp
qed

theorem parse_total_unknown_witness:
  "list_all (\<lambda>r. match (trim (js ''  hello there  '')) (pattern r) = None) patterns \<and>
   parse (js ''  hello there  '') =
     Inr [(js ''type'', Str (js ''unknown'')), (js ''input'', Str (js ''hello there''))] \<and>
   list_all isWhiteSpace (js ''   '') \<and>
   parse (js ''   '') = Inr [(js ''type'', Str (js ''unknown'')), (js ''input'', Str [])]"
proof -
  have n: "list_all (\<lambda>r. match (trim (js ''  hello there  '')) (pattern r) = None) patterns"
    by code_simp
  have t: "trim (js ''  hello there  '') = js ''hello there''" by code_simp
  have w: "list_all isWhiteSpace (js ''   '')" by code_simp
  show ?thesis
    using parse_total_unknown[of "js ''  hello there  ''"] parse_total_unknown[of "js ''   ''"] n t w
    by (simp add: list_all_iff)
qed

text \<open>
  C8. The input \<open>git commit "fix bug"\<close> gives the kind \<open>git_commit\<close> with the
  message \<open>fix bug\<close>, the quotation marks stripped; none of the fifteen rules declared
  before the sixteenth (the first of kind \<open>git_commit\<close>) matches it.
\<close>

theorem git_commit_quoted_message:
  \<open>parse (js ''git commit "fix bug"'') =
     Inr [(js ''type'', Str (js ''git_commit'')), (js ''message'', Str (js ''fix bug''))] \<and>
   map (\<lambda>r. match (trim (js ''git commit "fix bug"'')) (pattern r) \<noteq> None) (take 16 patterns) =
     replicate 15 False @ [True] \<and>
   type (patterns ! 15) = js ''git_commit''\<close>
proof (intro conjI)
  show \<open>parse (js ''git commit "fix bug"'') =
     Inr [(js ''type'', Str (js ''git_commit'')), (js ''message'', Str (js ''fix bug''))]\<close>
    by code_simp
  show \<open>map (\<lambda>r. match (trim (js ''git commit "fix bug"'')) (pattern r) \<noteq> None) (take 16 patterns) =
     replicate 15 False @ [True]\<close>
    by code_simp
  show "type (patterns ! 15) = js ''git_commit''"
    by (simp add: patterns_def)
qed

text \<open>
  C9. The kind of the command that \<open>parse\<close> returns is one of twenty-two fixed kinds,
  and every kind other than \<open>unknown\<close> has one of the five named categories in
  \<open>getCommandCategory\<close>.
\<close>

theorem parse_kind_closed:
  "\<exists>c. parse t = Inr c \<and>
     get c (js ''type'') \<in> Str ` js ` set [''read_file'', ''write_file'', ''edit_file'',
        ''list_directory'', ''search_files'', ''create_directory'', ''git_status'', ''git_diff'',
        ''git_log'', ''git_add'', ''git_commit'', ''git_branch_info'', ''analyze_project'',
        ''explain_codebase'', ''get_project_structure'', ''find_definition'',
        ''find_references'', ''connect_server'', ''list_servers'', ''list_tools'', ''query'',
        ''unknown''] \<and>
     (get c (js ''type'') \<noteq> Str (js ''unknown'') \<longrightarrow>
        getCommandCategory (get c (js ''type'')) \<in> js ` set [''file_operations'',
          ''git_operations'', ''codebase_analysis'', ''server_management'', ''queries''])"
proof -
  obtain c where c: "parse t = Inr c"
    "case find (\<lambda>r. match (trim t) (pattern r) \<noteq> None) patterns of
       None \<Rightarrow> c = [(js ''type'', Str (js ''unknown'')), (js ''input'', Str (trim t))]
     | Some r \<Rightarrow> get c (js ''type'') = Str (type r)"
    using parse_result[of t] by blast
  show ?thesis
  proof (cases "find (\<lambda>r. match (trim t) (pattern r) \<noteq> None) patterns")
    case None
    then have "get c (js ''type'') = Str (js ''unknown'')" using c(2) by simp
    then show ?thesis using c(1) by simp
  next
    case (Some r)
    then have "r \<in> set patterns" by (rule find_in_set)
    then have "type r \<in> js ` set [''read_file'', ''write_file'', ''edit_file'', ''list_directory'',
        ''search_files'', ''create_directory'', ''git_status'', ''git_diff'', ''git_log'',
        ''git_add'', ''git_commit'', ''git_branch_info'', ''analyze_project'',
        ''explain_codebase'', ''get_project_structure'', ''find_definition'',
        ''find_references'', ''connect_server'', ''list_servers'', ''list_tools'', ''query'']"
      and "getCommandCategory (Str (type r)) \<in> js ` set [''file_operations'', ''git_operations'',
        ''codebase_analysis'', ''server_management'', ''queries'']"
      using patterns_kinds by blast+
    moreover have "get c (js ''type'') = Str (type r)" using c(2) Some by simp
    ultimately show ?thesis using c(1) by auto
  qed
qed

theorem parse_kind_closed_witness:
  "\<exists>c. parse (js ''status'') = Inr c \<and>
     get c (js ''type'') = Str (js ''git_status'') \<and>
     get c (js ''type'') \<noteq> Str (js ''unknown'') \<and>
     getCommandCategory (get c (js ''type'')) \<in> js ` set [''file_operations'',
          ''git_operations'', ''codebase_analysis'', ''server_management'', ''queries'']"
proof -
  have p: "parse (js ''status'') = Inr [(js ''type'', Str (js ''git_status''))]"
    by code_simp
  have n: "Str (js ''git_status'') \<noteq> Str (js ''unknown'')"
    by (simp add: js_eq_iff)
  show ?thesis using parse_kind_closed[of "js ''status''"] p n by auto
qed





subsection \<open>Transport client\<close>

text \<open>
  C3, as the code has it. When the flag \<open>connected\<close> is not set, \<open>sendCommand\<close> fails with
  NotConnected and leaves the client, its sockets included, as it was; that is so in
  every state that the client reaches without an \<open>open\<close> event. When the flag is set and
  the socket of the client is open, \<open>sendCommand\<close> hands the JSON text of the object made
  of \<open>command\<close> and the parameters to that socket once and returns. In no case does it
  touch the flag, \<open>pendingRequests\<close> or \<open>requestId\<close>.
\<close>

theorem sendCommand_not_connected_or_written:
  "(\<not> connected c \<longrightarrow> sendCommand c command params = (Inl NotConnected, c)) \<and>
   (connected c \<and> ws c = Some sock \<and> readyState sock = OPEN \<longrightarrow>
      sendCommand c command params =
        (Inr (), replace_ws (sock\<lparr>outbox := outbox sock @
           [json_clean (Obj (assign [(js ''command'', command)] params))]\<rparr>) c)) \<and>
   (\<not> list_ex opens calls \<longrightarrow>
      sendCommand (client_after calls) command params = (Inl NotConnected, client_after calls)) \<and>
   connected (snd (sendCommand c command params)) = connected c \<and>
   pendingRequests (snd (sendCommand c command params)) = pendingRequests c \<and>
   requestId (snd (sendCommand c command params)) = requestId c"
proof (intro conjI impI)
  assume "\<not> connected c"
  then show "sendCommand c command params = (Inl NotConnected, c)"
    by (simp add: sendCommand_def)
next
  assume "connected c \<and> ws c = Some sock \<and> readyState sock = OPEN"
  then show "sendCommand c command params =
        (Inr (), replace_ws (sock\<lparr>outbox := outbox sock @
           [json_clean (Obj (assign [(js ''command'', command)] params))]\<rparr>) c)"
    by (simp add: sendCommand_def send_def)
next
  assume "\<not> list_ex opens calls"
  then have "\<not> connected (client_after calls)" by (rule never_opened)
  then show "sendCommand (client_after calls) command params =
      (Inl NotConnected, client_after calls)"
    by (simp add: sendCommand_def)
next
  show "connected (snd (sendCommand c command params)) = connected c"
    by (simp add: sendCommand_def Let_def replace_ws_def split: option.splits sum.splits)
  show "pendingRequests (snd (sendCommand c command params)) = pendingRequests c"
    by (simp add: sendCommand_def Let_def replace_ws_def split: option.splits sum.splits)
  show "requestId (snd (sendCommand c command params)) = requestId c"
    by (simp add: sendCommand_def Let_def replace_ws_def split: option.splits sum.splits)
qed

theorem sendCommand_not_connected_or_written_witness:
  "\<not> connected constructor \<and>
   sendCommand constructor (Str (js ''query'')) [(js ''query'', Str (js ''hi''))] =
     (Inl NotConnected, constructor) \<and>
   client_after [Connect, SocketOpen 0] =
     \<lparr>sockets = [\<lparr>readyState = OPEN, outbox = []\<rparr>], connected = True,
      pendingRequests = [], requestId = 0\<rparr> \<and>
   ws (client_after [Connect, SocketOpen 0]) = Some \<lparr>readyState = OPEN, outbox = []\<rparr> \<and>
   sendCommand (client_after [Connect, SocketOpen 0]) (Str (js ''query''))
       [(js ''query'', Str (js ''hi''))] =
     (Inr (), \<lparr>sockets = [\<lparr>readyState = OPEN,
                             outbox = [Obj [(js ''command'', Str (js ''query'')),
                                            (js ''query'', Str (js ''hi''))]]\<rparr>],
               connected = True, pendingRequests = [], requestId = 0\<rparr>) \<and>
   \<not> list_ex opens [Connect, SocketError 0, Disconnect] \<and>
   sendCommand (client_after [Connect, SocketError 0, Disconnect])
       (Str (js ''query'')) [(js ''query'', Str (js ''hi''))] =
     (Inl NotConnected, \<lparr>sockets = [\<lparr>readyState = CLOSING, outbox = []\<rparr>], connected = False,
                         pendingRequests = [], requestId = 0\<rparr>)"
proof -
  have a: "client_after [Connect, SocketOpen 0] =
      \<lparr>sockets = [\<lparr>readyState = OPEN, outbox = []\<rparr>], connected = True,
       pendingRequests = [], requestId = 0\<rparr>"
    by (simp add: client_after_def constructor_def connect_def on_open_def ready_def)
  have b: "client_after [Connect, SocketError 0, Disconnect] =
      \<lparr>sockets = [\<lparr>readyState = CLOSING, outbox = []\<rparr>], connected = False,
       pendingRequests = [], requestId = 0\<rparr>"
    by (simp add: client_after_def constructor_def connect_def on_error_def ready_def
          disconnect_def ws_def replace_ws_def close_def)
  show ?thesis
    using sendCommand_not_connected_or_written[of constructor
          "Str (js ''query'')" "[(js ''query'', Str (js ''hi''))]"]
        sendCommand_not_connected_or_written[where c = "client_after [Connect, SocketOpen 0]"
          and command = "Str (js ''query'')" and params = "[(js ''query'', Str (js ''hi''))]"
          and sock = "\<lparr>readyState = OPEN, outbox = []\<rparr>"
          and calls = "[Connect, SocketError 0, Disconnect]"]
    unfolding a b
    by (simp add: constructor_def assign_def js_def ws_def replace_ws_def)
qed

text \<open>
  C3 as stated fails when the flag is set and the socket is not open: after a second
  \<^verbatim>\<open>connect\<close> the flag is still set by the first socket, the new socket is connecting,
  and \<^verbatim>\<open>ws.send\<close> throws; nothing is written.
\<close>

theorem sendCommand_counterexample:
  "stale_client =
     \<lparr>sockets = [\<lparr>readyState = OPEN, outbox = []\<rparr>, \<lparr>readyState = CONNECTING, outbox = []\<rparr>],
      connected = True, pendingRequests = [], requestId = 0\<rparr> \<and>
   connected stale_client \<and>
   sendCommand stale_client (Str (js ''query'')) [(js ''query'', Str (js ''hi''))] =
     (Inl NotOpen, stale_client)"
  by (simp add: stale_client_def client_after_def constructor_def connect_def on_open_def
        ready_def sendCommand_def ws_def send_def)

text \<open>
  C4, as the code has it. The dispatch table has eight discriminants. The decoded frame
  \<^verbatim>\<open>null\<close> raises a TypeError before anything else; every other frame has a type, which
  may be \<^verbatim>\<open>undefined\<close>. A frame whose type is missing or is none of the eight has no
  handler called; the client prints ``Unknown message type'' and emits the frame
  unchanged on the \<open>message\<close> channel. A frame of a recognized type is handed to the
  handler of that type; if the handler returns, the frame is then emitted unchanged, and
  if it raises, the exception leaves \<open>handleMessage\<close> and nothing is emitted.
\<close>

theorem inbound_frame_dispatch:
  "map fst dispatch_table =
     map js [''server_connected'', ''server_disconnected'', ''tools_list'', ''servers_list'',
             ''query_response'', ''thinking'', ''status'', ''error''] \<and>
   handleMessage render Null = (Inl TypeError, []) \<and>
   (message \<noteq> Null \<and> message \<noteq> Undefined \<longrightarrow>
      (\<exists>ty' data'. destructure message = Inr (ty', data'))) \<and>
   (destructure message = Inr (ty, data) \<and> ty \<notin> Str ` fst ` set dispatch_table \<longrightarrow>
      handleMessage render message =
        (Inr (), [Console ''Unknown message type:'' [ty], Emit (js ''message'') message])) \<and>
   (js ''type'' \<notin> fst ` set ps \<longrightarrow>
      handleMessage render (Obj ps) =
        (Inr (), [Console ''Unknown message type:'' [Undefined], Emit (js ''message'') (Obj ps)])) \<and>
   ((t, name, handler) \<in> set dispatch_table \<and> destructure message = Inr (Str t, data) \<and>
    handler render data = Inr () \<longrightarrow>
      handleMessage render message =
        (Inr (), [Invoke name data, Emit (js ''message'') message])) \<and>
   ((t, name, handler) \<in> set dispatch_table \<and> destructure message = Inr (Str t, data) \<and>
    handler render data = Inl e \<longrightarrow>
      handleMessage render message = (Inl e, [Invoke name data]))"
proof (intro conjI impI)
  show "map fst dispatch_table =
     map js [''server_connected'', ''server_disconnected'', ''tools_list'', ''servers_list'',
             ''query_response'', ''thinking'', ''status'', ''error'']"
    by (rule recognized)
next
  show "handleMessage render Null = (Inl TypeError, [])" by (simp add: handleMessage_def)
next
  assume "message \<noteq> Null \<and> message \<noteq> Undefined"
  then show "\<exists>ty' data'. destructure message = Inr (ty', data')"
    using destructure_total by blast
next
  assume "destructure message = Inr (ty, data) \<and> ty \<notin> Str ` fst ` set dispatch_table"
  then show "handleMessage render message =
        (Inr (), [Console ''Unknown message type:'' [ty], Emit (js ''message'') message])"
    using handleMessage_unrecognized by blast
next
  assume "js ''type'' \<notin> fst ` set ps"
  then have "get ps (js ''type'') = Undefined" by (rule get_absent)
  then have "destructure (Obj ps) = Inr (Undefined, filter (\<lambda>(k, v). k \<noteq> js ''type'') ps)"
    by simp
  moreover have "Undefined \<notin> Str ` fst ` set dispatch_table" by auto
  ultimately show "handleMessage render (Obj ps) =
        (Inr (), [Console ''Unknown message type:'' [Undefined], Emit (js ''message'') (Obj ps)])"
    by (rule handleMessage_unrecognized)
next
  assume a: "(t, name, handler) \<in> set dispatch_table \<and> destructure message = Inr (Str t, data) \<and>
    handler render data = Inr ()"
  then have "handleMessage render message =
           (case handler render data of
              Inl e \<Rightarrow> (Inl e, [Invoke name data])
            | Inr u \<Rightarrow> (Inr (), [Invoke name data, Emit (js ''message'') message]))"
    by (intro handleMessage_recognized) simp_all
  then show "handleMessage render message =
        (Inr (), [Invoke name data, Emit (js ''message'') message])"
    using a by simp
next
  assume a: "(t, name, handler) \<in> set dispatch_table \<and> destructure message = Inr (Str t, data) \<and>
    handler render data = Inl e"
  then have "handleMessage render message =
           (case handler render data of
              Inl e \<Rightarrow> (Inl e, [Invoke name data])
            | Inr u \<Rightarrow> (Inr (), [Invoke name data, Emit (js ''message'') message]))"
    by (intro handleMessage_recognized) simp_all
  then show "handleMessage render message = (Inl e, [Invoke name data])"
    using a by simp
qed

theorem inbound_frame_dispatch_witness:
  "handleMessage plain_render (Obj [(js ''id'', Num 7)]) =
     (Inr (), [Console ''Unknown message type:'' [Undefined],
               Emit (js ''message'') (Obj [(js ''id'', Num 7)])]) \<and>
   handleMessage plain_render (Obj [(js ''type'', Str (js ''ping''))]) =
     (Inr (), [Console ''Unknown message type:'' [Str (js ''ping'')],
               Emit (js ''message'') (Obj [(js ''type'', Str (js ''ping''))])]) \<and>
   (js ''thinking'', ''handleThinking'', handleThinking) \<in> set dispatch_table \<and>
   handleThinking plain_render [(js ''message'', Str (js ''hm''))] = Inr () \<and>
   handleMessage plain_render thinking_frame =
     (Inr (), [Invoke ''handleThinking'' [(js ''message'', Str (js ''hm''))],
               Emit (js ''message'') thinking_frame]) \<and>
   (js ''server_connected'', ''handleServerConnected'', handleServerConnected) \<in> set dispatch_table \<and>
   handleServerConnected plain_render [] = Inl TypeError \<and>
   handleMessage plain_render (Obj [(js ''type'', Str (js ''server_connected''))]) =
     (Inl TypeError, [Invoke ''handleServerConnected'' []]) \<and>
   (\<exists>ty' data'. destructure (Num 5) = Inr (ty', data'))"
proof -
  have a: "js ''type'' \<notin> fst ` set [(js ''id'', Num 7)]"
    by (simp add: js_eq_iff)
  have b: "destructure (Obj [(js ''type'', Str (js ''ping''))]) = Inr (Str (js ''ping''), [])"
    by simp
  have c: "Str (js ''ping'') \<notin> Str ` fst ` set dispatch_table"
    by (simp add: dispatch_table_def js_eq_iff)
  have d: "(js ''thinking'', ''handleThinking'', handleThinking) \<in> set dispatch_table"
      "(js ''server_connected'', ''handleServerConnected'', handleServerConnected) \<in> set dispatch_table"
    by (simp_all add: dispatch_table_def)
  have e: "destructure thinking_frame = Inr (Str (js ''thinking''), [(js ''message'', Str (js ''hm''))])"
      "destructure (Obj [(js ''type'', Str (js ''server_connected''))]) =
         Inr (Str (js ''server_connected''), [])"
    by (simp_all add: thinking_frame_def js_eq_iff)
  have f: "handleThinking plain_render [(js ''message'', Str (js ''hm''))] = Inr ()"
      "handleServerConnected plain_render [] = Inl TypeError"
    by (simp_all add: handleThinking_def handleServerConnected_def plain_render_def)
  show ?thesis
    using inbound_frame_dispatch[where message = "Obj [(js ''type'', Str (js ''ping''))]"
            and ty = "Str (js ''ping'')" and data = "[]" and ps = "[(js ''id'', Num 7)]"
            and render = plain_render]
          inbound_frame_dispatch[where message = thinking_frame and render = plain_render
            and t = "js ''thinking''" and name = "''handleThinking''" and handler = handleThinking
            and data = "[(js ''message'', Str (js ''hm''))]" and ps = "[]"]
          inbound_frame_dispatch[where message = "Obj [(js ''type'', Str (js ''server_connected''))]"
            and render = plain_render and t = "js ''server_connected''"
            and name = "''handleServerConnected''" and handler = handleServerConnected
            and data = "[]" and e = TypeError and ps = "[]"]
          inbound_frame_dispatch[where message = "Num 5" and ps = "[]"]
          a b c d e f
    by simp
qed

text \<open>
  C4 as stated fails three times: a frame without \<open>type\<close> is not dropped silently, the
  client prints a line about it; a frame of a recognized type whose handler raises (here
  \<open>server_connected\<close> without \<open>server\<close>) is not emitted; and the frame \<^verbatim>\<open>null\<close> is not
  emitted.
\<close>

theorem inbound_frame_counterexample:
  "Console ''Unknown message type:'' [Undefined] \<in> set (snd (handleMessage plain_render (Obj []))) \<and>
   handleMessage plain_render (Obj [(js ''type'', Str (js ''server_connected''))]) =
     (Inl TypeError, [Invoke ''handleServerConnected'' []]) \<and>
   Emit (js ''message'') (Obj [(js ''type'', Str (js ''server_connected''))]) \<notin>
     set (snd (handleMessage plain_render (Obj [(js ''type'', Str (js ''server_connected''))]))) \<and>
   handleMessage plain_render Null = (Inl TypeError, []) \<and>
   Emit (js ''message'') Null \<notin> set (snd (handleMessage plain_render Null))"
  by (simp add: handleMessage_def dispatch_table_def handleServerConnected_def js_eq_iff)

subsection \<open>Session store\<close>

text \<open>
  C5, as the code has it. Let the file of a session hold an object of JSON data whose
  \<open>history\<close> is an array and whose \<open>id\<close> prints as the name of the session, and let the
  file be writable. Then \<open>addToHistory\<close> returns without a warning, and the history read
  afterwards is the history read before followed by what JSON keeps of the entry with the
  time stamp put in: the entry itself with the time stamp when the entry is JSON data.
\<close>

theorem append_then_read_history:
  assumes rec: "files disk (sessionFile pf sid) = Some (Json (Obj ps))"
    and hist: "get ps (js ''history'') = Arr h"
    and ident: "to_string (Number_toString pf) (get ps (js ''id'')) = Inr sid"
    and data: "is_json (Obj ps)"
    and writable: "\<not> readonly disk (sessionFile pf sid)"
  shows "getHistory pf disk sid = Arr h \<and>
         (\<exists>disk'. addToHistory pf disk now sid entry = Inr (disk', []) \<and>
            getHistory pf disk' sid =
              Arr (h @ [json_clean (Obj (put (js ''timestamp'') (Str now) entry))])) \<and>
         (is_json (Obj entry) \<longrightarrow>
            json_clean (Obj (put (js ''timestamp'') (Str now) entry)) =
              Obj (put (js ''timestamp'') (Str now) entry))"
proof (intro conjI impI)
  have r: "session_record pf disk sid h"
    using assms by (simp add: session_record_def)
  show "getHistory pf disk sid = Arr h" using r by (rule getHistory_record)
  obtain disk' where "addToHistory pf disk now sid entry = Inr (disk', [])"
    "session_record pf disk' sid
       (h @ [json_clean (Obj (put (js ''timestamp'') (Str now) entry))])"
    using addToHistory_record[OF r] by blast
  then show "\<exists>disk'. addToHistory pf disk now sid entry = Inr (disk', []) \<and>
            getHistory pf disk' sid =
              Arr (h @ [json_clean (Obj (put (js ''timestamp'') (Str now) entry))])"
    using getHistory_record by blast
next
  assume "is_json (Obj entry)"
  then have "is_json (Obj (put (js ''timestamp'') (Str now) entry))"
    by (intro is_json_put) (simp_all add: is_json_def)
  then show "json_clean (Obj (put (js ''timestamp'') (Str now) entry)) =
              Obj (put (js ''timestamp'') (Str now) entry)"
    by (simp add: is_json_def)
qed

theorem append_then_read_history_witness:
  "getHistory demo_platform demo_disk (js ''ab12'') = Arr [] \<and>
   (\<exists>disk'. addToHistory demo_platform demo_disk (js ''2024-01-01T00:00:00.000Z'') (js ''ab12'')
               [(js ''type'', Str (js ''user'')), (js ''content'', Str (js ''help''))] =
               Inr (disk', []) \<and>
            getHistory demo_platform disk' (js ''ab12'') =
              Arr [Obj [(js ''type'', Str (js ''user'')), (js ''content'', Str (js ''help'')),
                        (js ''timestamp'', Str (js ''2024-01-01T00:00:00.000Z''))]])"
proof -
  let ?ps = "[(js ''id'', Str (js ''ab12'')), (js ''created'', Str (js ''2024'')),
              (js ''history'', Arr [])]"
  let ?e = "[(js ''type'', Str (js ''user'')), (js ''content'', Str (js ''help''))]"
  have rec: "files demo_disk (sessionFile demo_platform (js ''ab12'')) = Some (Json (Obj ?ps))"
    by (simp add: sessionFile_def demo_platform_def demo_disk_def js_def)
  have hist: "get ?ps (js ''history'') = Arr []" by (simp add: js_eq_iff)
  have ident: "to_string (Number_toString demo_platform) (get ?ps (js ''id'')) = Inr (js ''ab12'')"
    by simp
  have data: "is_json (Obj ?ps)" "is_json (Obj ?e)" by (simp_all add: is_json_def)
  have writable: "\<not> readonly demo_disk (sessionFile demo_platform (js ''ab12''))"
    by (simp add: demo_disk_def)
  have p: "put (js ''timestamp'') (Str (js ''2024-01-01T00:00:00.000Z'')) ?e =
             ?e @ [(js ''timestamp'', Str (js ''2024-01-01T00:00:00.000Z''))]"
    by (simp add: js_eq_iff)
  show ?thesis
    using append_then_read_history[OF rec hist ident data(1) writable,
            of "js ''2024-01-01T00:00:00.000Z''" ?e] data(2) p
    by simp
qed

text \<open>
  C5 as stated fails outside these conditions. On a file that cannot be written the
  failure is caught and the history stays as it was; a record that holds another id is
  saved under that id; a record without an array as history raises a TypeError; and a
  property of the entry that is \<^verbatim>\<open>undefined\<close> is not stored.
\<close>

theorem append_then_read_counterexample:
  "addToHistory demo_platform readonly_disk (js ''2024-01-01T00:00:00.000Z'') (js ''ab12'')
     [(js ''type'', Str (js ''user'')), (js ''content'', Str (js ''help''))] =
     Inr (readonly_disk, [Console ''Failed to save session:'' []]) \<and>
   getHistory demo_platform readonly_disk (js ''ab12'') = Arr [] \<and>
   getHistory demo_platform
     (fst (projr (addToHistory demo_platform misnamed_disk (js ''2024-01-01T00:00:00.000Z'')
        (js ''ab12'') [(js ''type'', Str (js ''user'')), (js ''content'', Str (js ''help''))])))
     (js ''ab12'') = Arr [] \<and>
   addToHistory demo_platform broken_disk (js ''2024-01-01T00:00:00.000Z'') (js ''ab12'')
     [(js ''type'', Str (js ''user'')), (js ''content'', Str (js ''help''))] = Inl TypeError \<and>
   getHistory demo_platform
     (fst (projr (addToHistory demo_platform demo_disk (js ''2024-01-01T00:00:00.000Z'')
        (js ''ab12'') [(js ''type'', Str (js ''response'')), (js ''content'', Undefined)])))
     (js ''ab12'') =
     Arr [Obj [(js ''type'', Str (js ''response'')),
               (js ''timestamp'', Str (js ''2024-01-01T00:00:00.000Z''))]]"
proof -
  have f: "sessionFile demo_platform (js ''ab12'') = js ''sessions/ab12.json''"
      "sessionFile demo_platform (js ''other'') = js ''sessions/other.json''"
    by (simp_all add: sessionFile_def demo_platform_def js_def)
  have n: "js ''sessions/other.json'' \<noteq> js ''sessions/ab12.json''" by (simp add: js_eq_iff)
  show ?thesis
    by (simp add: addToHistory_def loadSession_def saveSession_def getHistory_def f n
          readonly_disk_def misnamed_disk_def broken_disk_def demo_disk_def js_eq_iff
          assign_def)
qed

text \<open>
  C6. When the file of the session is missing, cannot be read or does not parse,
  \<open>addToHistory\<close> returns normally, prints nothing and leaves the file system as it
  was.
\<close>

theorem append_without_record_is_noop:
  assumes "files disk (sessionFile pf sid) = None \<or>
           files disk (sessionFile pf sid) = Some Malformed \<or>
           files disk (sessionFile pf sid) = Some Unreadable"
  shows "addToHistory pf disk now sid entry = Inr (disk, [])"
  using assms by (auto simp: addToHistory_def loadSession_def)

theorem append_without_record_is_noop_witness:
  "files demo_disk (sessionFile demo_platform (js ''zz'')) = None \<and>
   addToHistory demo_platform demo_disk (js ''2024-01-01T00:00:00.000Z'') (js ''zz'')
     [(js ''type'', Str (js ''user'')), (js ''content'', Str (js ''help''))] =
     Inr (demo_disk, [])"
proof -
  have m: "files demo_disk (sessionFile demo_platform (js ''zz'')) = None"
    by (simp add: sessionFile_def demo_platform_def demo_disk_def js_def)
  then show ?thesis
    using append_without_record_is_noop[of demo_disk demo_platform "js ''zz''"] by simp
qed


subsection \<open>REPL\<close>

text \<open>
  C7, as the code has it. For a line that is not blank, the first thing a turn of the
  loop does is to call \<open>addToHistory\<close> on the active session with the entry of type
  \<open>user\<close> holding the trimmed line; whatever follows calls it at most once more, with an
  entry of type \<open>query\<close>. When the active session has a record that can be extended, the
  history stored after the turn is the history before, then that entry with its time
  stamp, then at most one entry of type \<open>query\<close>. A blank line does nothing. The listener
  on inbound frames calls \<open>addToHistory\<close> with an entry of type \<open>response\<close> when the type
  of the frame is \<open>query_response\<close>, which stores the entry after the history of such a
  session; for any other frame it leaves the state as it was.
\<close>

theorem user_line_appended_first:
  "(trim line \<noteq> [] \<longrightarrow>
      (\<exists>rest. fst (mainLoop_turn pf line w) =
          Call ''sessionManager.addToHistory''
            [Str (currentSessionId w),
             Obj [(js ''type'', Str (js ''user'')), (js ''content'', Str (trim line))]] # rest \<and>
          entry_types rest \<in> {[], [Str (js ''query'')]})) \<and>
   (trim line \<noteq> [] \<and> session_record pf (storage w) (currentSessionId w) h \<longrightarrow>
      (\<exists>more. getHistory pf (storage (snd (snd (mainLoop_turn pf line w)))) (currentSessionId w) =
          Arr (h @ Obj [(js ''type'', Str (js ''user'')), (js ''content'', Str (trim line)),
                        (js ''timestamp'', Str (clock w (ticks w)))] # more) \<and>
         (more = [] \<or>
          (\<exists>q. more = [json_clean (Obj [(js ''type'', Str (js ''query'')), (js ''content'', q),
                                         (js ''timestamp'', Str (clock w (Suc (ticks w))))])])))) \<and>
   (trim line = [] \<longrightarrow> mainLoop_turn pf line w = ([], None, w)) \<and>
   (read_prop message (js ''type'') = Inr (Str (js ''query_response'')) \<longrightarrow>
      (\<exists>response rest.
          read_prop message (js ''response'') = Inr response \<and>
          fst (repl_handleMessage pf message w) =
            Call ''sessionManager.addToHistory''
              [Str (currentSessionId w),
               Obj [(js ''type'', Str (js ''response'')), (js ''content'', response)]] # rest \<and>
          appended rest = [])) \<and>
   (read_prop message (js ''type'') = Inr (Str (js ''query_response'')) \<and>
    session_record pf (storage w) (currentSessionId w) h \<longrightarrow>
      (\<exists>response.
          read_prop message (js ''response'') = Inr response \<and>
          getHistory pf (storage (snd (snd (repl_handleMessage pf message w)))) (currentSessionId w) =
            Arr (h @ [json_clean (Obj [(js ''type'', Str (js ''response'')),
                                       (js ''content'', response),
                                       (js ''timestamp'', Str (clock w (ticks w)))])]))) \<and>
   (read_prop message (js ''type'') \<noteq> Inr (Str (js ''query_response'')) \<longrightarrow>
      appended (fst (repl_handleMessage pf message w)) = [] \<and>
      snd (snd (repl_handleMessage pf message w)) = w)"
proof (intro conjI impI)
  assume nb: "trim line \<noteq> []"
  obtain rest where rest: "fst (processInput pf (trim line) w) =
      Call ''sessionManager.addToHistory''
        [Str (currentSessionId w),
         Obj [(js ''type'', Str (js ''user'')), (js ''content'', Str (trim line))]] # rest"
      "entry_types rest \<in> {[], [Str (js ''query'')]}"
    using events_processInput[of pf "trim line" w] by blast
  obtain evs r w' where pw: "processInput pf (trim line) w = (evs, r, w')"
    by (cases "processInput pf (trim line) w")
  show "\<exists>rest. fst (mainLoop_turn pf line w) =
          Call ''sessionManager.addToHistory''
            [Str (currentSessionId w),
             Obj [(js ''type'', Str (js ''user'')), (js ''content'', Str (trim line))]] # rest \<and>
          entry_types rest \<in> {[], [Str (js ''query'')]}"
  proof (cases r)
    case None
    then have "fst (mainLoop_turn pf line w) = evs"
      using nb pw by (simp add: mainLoop_turn_def try_catch_def)
    then show ?thesis using rest pw by simp
  next
    case (Some e)
    then have "fst (mainLoop_turn pf line w) = evs @ [Console ''Error:'' []]"
      using nb pw by (simp add: mainLoop_turn_def try_catch_def say_def)
    then have "fst (mainLoop_turn pf line w) =
        Call ''sessionManager.addToHistory''
          [Str (currentSessionId w),
           Obj [(js ''type'', Str (js ''user'')), (js ''content'', Str (trim line))]] #
        (rest @ [Console ''Error:'' []])"
      using rest(1) pw by simp
    moreover have "entry_types (rest @ [Console ''Error:'' []]) \<in> {[], [Str (js ''query'')]}"
      using rest(2) by (simp add: entry_types_def)
    ultimately show ?thesis by blast
  qed
next
  assume a: "trim line \<noteq> [] \<and> session_record pf (storage w) (currentSessionId w) h"
  then obtain more where m:
      "session_record pf (storage (final (processInput pf (trim line)) w)) (currentSessionId w)
         (h @ Obj [(js ''type'', Str (js ''user'')), (js ''content'', Str (trim line)),
                   (js ''timestamp'', Str (clock w (ticks w)))] # more)"
      "more = [] \<or>
       (\<exists>q. more = [json_clean (Obj [(js ''type'', Str (js ''query'')), (js ''content'', q),
                                      (js ''timestamp'', Str (clock w (Suc (ticks w))))])])"
    using processInput_record[of pf w h "trim line"] by blast
  have "snd (snd (mainLoop_turn pf line w)) = final (processInput pf (trim line)) w"
    using a final_mainLoop_turn[of line pf w] by (simp add: final_def)
  then have "getHistory pf (storage (snd (snd (mainLoop_turn pf line w)))) (currentSessionId w) =
          Arr (h @ Obj [(js ''type'', Str (js ''user'')), (js ''content'', Str (trim line)),
                        (js ''timestamp'', Str (clock w (ticks w)))] # more)"
    using getHistory_record[OF m(1)] by simp
  then show "\<exists>more. getHistory pf (storage (snd (snd (mainLoop_turn pf line w)))) (currentSessionId w) =
          Arr (h @ Obj [(js ''type'', Str (js ''user'')), (js ''content'', Str (trim line)),
                        (js ''timestamp'', Str (clock w (ticks w)))] # more) \<and>
         (more = [] \<or>
          (\<exists>q. more = [json_clean (Obj [(js ''type'', Str (js ''query'')), (js ''content'', q),
                                         (js ''timestamp'', Str (clock w (Suc (ticks w))))])]))"
    using m(2) by blast
next
  assume "trim line = []"
  then show "mainLoop_turn pf line w = ([], None, w)"
    by (simp add: mainLoop_turn_def skip_def)
next
  assume t: "read_prop message (js ''type'') = Inr (Str (js ''query_response''))"
  then obtain response where r: "read_prop message (js ''response'') = Inr response"
    by (cases message) (simp_all split: if_splits)
  obtain rest where "fst (repl_addToHistory pf
        [(js ''type'', Str (js ''response'')), (js ''content'', response)] w) =
      Call ''sessionManager.addToHistory''
        [Str (currentSessionId w),
         Obj [(js ''type'', Str (js ''response'')), (js ''content'', response)]] # rest"
      "appended rest = []"
    using events_repl_addToHistory by blast
  then show "\<exists>response rest.
          read_prop message (js ''response'') = Inr response \<and>
          fst (repl_handleMessage pf message w) =
            Call ''sessionManager.addToHistory''
              [Str (currentSessionId w),
               Obj [(js ''type'', Str (js ''response'')), (js ''content'', response)]] # rest \<and>
          appended rest = []"
    using t r by (simp add: repl_handleMessage_def)
next
  assume a: "read_prop message (js ''type'') = Inr (Str (js ''query_response'')) \<and>
    session_record pf (storage w) (currentSessionId w) h"
  then obtain response where r: "read_prop message (js ''response'') = Inr response"
    by (cases message) (simp_all split: if_splits)
  let ?entry = "[(js ''type'', Str (js ''response'')), (js ''content'', response)]"
  have p: "put (js ''timestamp'') (Str (clock w (ticks w))) ?entry =
      [(js ''type'', Str (js ''response'')), (js ''content'', response),
       (js ''timestamp'', Str (clock w (ticks w)))]"
    by (simp add: js_eq_iff)
  obtain disk' where d: "repl_addToHistory pf ?entry w =
           ([Call ''sessionManager.addToHistory'' [Str (currentSessionId w), Obj ?entry]], None,
            w\<lparr>storage := disk', ticks := Suc (ticks w)\<rparr>)"
     "session_record pf disk' (currentSessionId w)
        (h @ [json_clean (Obj (put (js ''timestamp'') (Str (clock w (ticks w))) ?entry))])"
    using a repl_addToHistory_record[of pf w h ?entry] by blast
  have "repl_handleMessage pf message w = repl_addToHistory pf ?entry w"
    using a r by (simp add: repl_handleMessage_def)
  then have "getHistory pf (storage (snd (snd (repl_handleMessage pf message w)))) (currentSessionId w) =
      Arr (h @ [json_clean (Obj (put (js ''timestamp'') (Str (clock w (ticks w))) ?entry))])"
    using d getHistory_record[OF d(2)] by simp
  then show "\<exists>response.
          read_prop message (js ''response'') = Inr response \<and>
          getHistory pf (storage (snd (snd (repl_handleMessage pf message w)))) (currentSessionId w) =
            Arr (h @ [json_clean (Obj [(js ''type'', Str (js ''response'')),
                                       (js ''content'', response),
                                       (js ''timestamp'', Str (clock w (ticks w)))])])"
    using r unfolding p by blast
next
  assume "read_prop message (js ''type'') \<noteq> Inr (Str (js ''query_response''))"
  then show "appended (fst (repl_handleMessage pf message w)) = []"
    by (auto simp: repl_handleMessage_def raise_def skip_def split: sum.splits)
next
  assume "read_prop message (js ''type'') \<noteq> Inr (Str (js ''query_response''))"
  then show "snd (snd (repl_handleMessage pf message w)) = w"
    by (rule repl_handleMessage_other)
qed

theorem user_line_appended_first_witness:
  "trim (js '' help '') = js ''help'' \<and>
   session_record demo_platform (storage demo_world) (currentSessionId demo_world) [] \<and>
   fst (mainLoop_turn demo_platform (js '' help '') demo_world) =
     [Call ''sessionManager.addToHistory''
        [Str (js ''ab12''),
         Obj [(js ''type'', Str (js ''user'')), (js ''content'', Str (js ''help''))]],
      Console ''showHelp'' []] \<and>
   getHistory demo_platform (storage (snd (snd (mainLoop_turn demo_platform (js '' help '') demo_world))))
     (js ''ab12'') =
     Arr [Obj [(js ''type'', Str (js ''user'')), (js ''content'', Str (js ''help'')),
               (js ''timestamp'', Str (js ''2024-01-01T00:00:00.000Z''))]] \<and>
   trim (js ''   '') = [] \<and>
   mainLoop_turn demo_platform (js ''   '') demo_world = ([], None, demo_world) \<and>
   read_prop response_frame (js ''type'') = Inr (Str (js ''query_response'')) \<and>
   fst (repl_handleMessage demo_platform response_frame demo_world) =
     [Call ''sessionManager.addToHistory''
        [Str (js ''ab12''),
         Obj [(js ''type'', Str (js ''response'')), (js ''content'', Str (js ''hello''))]]] \<and>
   getHistory demo_platform (storage (snd (snd (repl_handleMessage demo_platform response_frame demo_world))))
     (js ''ab12'') =
     Arr [Obj [(js ''type'', Str (js ''response'')), (js ''content'', Str (js ''hello'')),
               (js ''timestamp'', Str (js ''2024-01-01T00:00:00.000Z''))]] \<and>
   read_prop thinking_frame (js ''type'') = Inr (Str (js ''thinking'')) \<and>
   appended (fst (repl_handleMessage demo_platform thinking_frame demo_world)) = [] \<and>
   snd (snd (repl_handleMessage demo_platform thinking_frame demo_world)) = demo_world"
proof -
  have t: "trim (js '' help '') = js ''help''" "trim (js ''   '') = []"
    by code_simp+
  have f: "sessionFile demo_platform (js ''ab12'') = js ''sessions/ab12.json''"
    by (simp add: sessionFile_def demo_platform_def js_def)
  have s: "session_record demo_platform (storage demo_world) (currentSessionId demo_world) []"
    unfolding session_record_def demo_world_def world.select_convs f
    by (simp add: demo_disk_def is_json_def js_eq_iff)
  have h: "fst (mainLoop_turn demo_platform (js '' help '') demo_world) =
     [Call ''sessionManager.addToHistory''
        [Str (js ''ab12''),
         Obj [(js ''type'', Str (js ''user'')), (js ''content'', Str (js ''help''))]],
      Console ''showHelp'' []]"
    by code_simp
  have g: "getHistory demo_platform
       (storage (snd (snd (mainLoop_turn demo_platform (js '' help '') demo_world)))) (js ''ab12'') =
     Arr [Obj [(js ''type'', Str (js ''user'')), (js ''content'', Str (js ''help'')),
               (js ''timestamp'', Str (js ''2024-01-01T00:00:00.000Z''))]]"
    by code_simp
  have r: "read_prop response_frame (js ''type'') = Inr (Str (js ''query_response''))"
      "read_prop thinking_frame (js ''type'') = Inr (Str (js ''thinking''))"
    by (simp_all add: response_frame_def thinking_frame_def js_eq_iff)
  have n: "Inr (Str (js ''thinking'')) \<noteq> (Inr (Str (js ''query_response'')) :: error + jsval)"
    by (simp add: js_eq_iff)
  have e: "fst (repl_handleMessage demo_platform response_frame demo_world) =
     [Call ''sessionManager.addToHistory''
        [Str (js ''ab12''),
         Obj [(js ''type'', Str (js ''response'')), (js ''content'', Str (js ''hello''))]]]"
    by code_simp
  have k: "getHistory demo_platform
       (storage (snd (snd (repl_handleMessage demo_platform response_frame demo_world)))) (js ''ab12'') =
     Arr [Obj [(js ''type'', Str (js ''response'')), (js ''content'', Str (js ''hello'')),
               (js ''timestamp'', Str (js ''2024-01-01T00:00:00.000Z''))]]"
    by code_simp
  show ?thesis
    using user_line_appended_first[where line = "js ''   ''" and pf = demo_platform
            and w = demo_world and message = thinking_frame and h = "[]"]
          user_line_appended_first[where line = "js '' help ''" and pf = demo_platform
            and w = demo_world and message = response_frame and h = "[]"]
          t s h g r n e k
    by simp
qed

text \<open>
  C7 as stated fails when the active session has no record, as after a start with the
  id of a session that does not exist, and when its file cannot be written:
  \<open>addToHistory\<close> is called first, and nothing is stored.
\<close>

theorem user_line_counterexample:
  "fst (mainLoop_turn demo_platform (js ''help'') lost_world) =
     [Call ''sessionManager.addToHistory''
        [Str (js ''zz''),
         Obj [(js ''type'', Str (js ''user'')), (js ''content'', Str (js ''help''))]],
      Console ''showHelp'' []] \<and>
   files (storage lost_world) (sessionFile demo_platform (js ''zz'')) = None \<and>
   files (storage (snd (snd (mainLoop_turn demo_platform (js ''help'') lost_world))))
     (sessionFile demo_platform (js ''zz'')) = None \<and>
   getHistory demo_platform (storage (snd (snd (mainLoop_turn demo_platform (js ''help'') lost_world))))
     (js ''zz'') = Arr [] \<and>
   files (storage readonly_world) (sessionFile demo_platform (js ''ab12'')) =
     Some (Json (Obj [(js ''id'', Str (js ''ab12'')), (js ''created'', Str (js ''2024'')),
                      (js ''history'', Arr [])])) \<and>
   fst (mainLoop_turn demo_platform (js ''help'') readonly_world) =
     [Call ''sessionManager.addToHistory''
        [Str (js ''ab12''),
         Obj [(js ''type'', Str (js ''user'')), (js ''content'', Str (js ''help''))]],
      Console ''Failed to save session:'' [],
      Console ''showHelp'' []] \<and>
   getHistory demo_platform
     (storage (snd (snd (mainLoop_turn demo_platform (js ''help'') readonly_world)))) (js ''ab12'') =
     Arr []"
proof -
  have ro: "files (storage readonly_world) (sessionFile demo_platform (js ''ab12'')) =
     Some (Json (Obj [(js ''id'', Str (js ''ab12'')), (js ''created'', Str (js ''2024'')),
                      (js ''history'', Arr [])]))"
    by (simp add: readonly_world_def readonly_disk_def demo_disk_def sessionFile_def
          demo_platform_def js_def)
  have re: "fst (mainLoop_turn demo_platform (js ''help'') readonly_world) =
     [Call ''sessionManager.addToHistory''
        [Str (js ''ab12''),
         Obj [(js ''type'', Str (js ''user'')), (js ''content'', Str (js ''help''))]],
      Console ''Failed to save session:'' [],
      Console ''showHelp'' []]"
    by code_simp
  have rg: "getHistory demo_platform
     (storage (snd (snd (mainLoop_turn demo_platform (js ''help'') readonly_world)))) (js ''ab12'') =
     Arr []"
    by code_simp
  have f: "sessionFile demo_platform (js ''zz'') = js ''sessions/zz.json''"
    by (simp add: sessionFile_def demo_platform_def js_def)
  have n: "js ''sessions/zz.json'' \<noteq> js ''sessions/ab12.json''" by (simp add: js_eq_iff)
  have m: "files (storage lost_world) (sessionFile demo_platform (js ''zz'')) = None"
    unfolding f using n by (simp add: lost_world_def demo_world_def demo_disk_def)
  have t: "trim (js ''help'') = js ''help''" by code_simp
  have a: "repl_addToHistory demo_platform
             [(js ''type'', Str (js ''user'')), (js ''content'', Str (js ''help''))] lost_world =
           ([Call ''sessionManager.addToHistory''
               [Str (js ''zz''),
                Obj [(js ''type'', Str (js ''user'')), (js ''content'', Str (js ''help''))]]],
            None, lost_world\<lparr>storage := storage lost_world, ticks := Suc (ticks lost_world)\<rparr>)"
    using m
    by (simp add: repl_addToHistory_def addToHistory_def loadSession_def lost_world_def
          demo_world_def)
  have l: "toLowerCase (js ''help'') = js ''help''" by code_simp
  have ne: "js ''help'' \<noteq> js ''exit''" "js ''help'' \<noteq> js ''quit''" "js ''help'' \<noteq> []"
    by (simp_all add: js_def)
  have p: "mainLoop_turn demo_platform (js ''help'') lost_world =
      ([Call ''sessionManager.addToHistory''
               [Str (js ''zz''),
                Obj [(js ''type'', Str (js ''user'')), (js ''content'', Str (js ''help''))]],
        Console ''showHelp'' []], None,
       lost_world\<lparr>storage := storage lost_world, ticks := Suc (ticks lost_world)\<rparr>)"
    using t a l ne
    by (simp add: mainLoop_turn_def try_catch_def processInput_def andThen_def showHelp_def say_def)
  have "getHistory demo_platform
      (storage (snd (snd (mainLoop_turn demo_platform (js ''help'') lost_world)))) (js ''zz'') = Arr []"
    unfolding p using m by (simp add: getHistory_def loadSession_def)
  moreover have "files (storage (snd (snd (mainLoop_turn demo_platform (js ''help'') lost_world))))
     (sessionFile demo_platform (js ''zz'')) = None"
    unfolding p using m by simp
  moreover have "fst (mainLoop_turn demo_platform (js ''help'') lost_world) =
     [Call ''sessionManager.addToHistory''
        [Str (js ''zz''),
         Obj [(js ''type'', Str (js ''user'')), (js ''content'', Str (js ''help''))]],
      Console ''showHelp'' []]"
    unfolding p by simp
  ultimately show ?thesis using m ro re rg by simp
qed

end
